theory Spec2Isabelle
  imports Main "HOL-Library.Word"
begin

section \<open>Data model\<close>

text \<open>
  pyinstailor patches a PyInstaller bundle: a bootloader followed by a CArchive package
  that ends in a fixed-size cookie. Files are byte strings, the file system is a map from
  path names to contents (a POSIX file system, case-sensitive and without links;
  directories are not represented: \<open>makedirs\<close> only prepares the parents of a file
  that is written next), and a raised exception is a value of \<open>error\<close>.
\<close>

type_synonym byte = "8 word"
type_synonym bytes = "byte list"
type_synonym filesystem = "string \<rightharpoonup> bytes"

datatype error =
    IOError string
  | OSError
  | RuntimeError string
  | SyntaxError
  | UnicodeDecodeError
  | TypeError
  | IndexError
  | AttributeError
  | SystemExit nat
  | LibraryError string

text \<open>
  A TOC entry of the CArchive reader is the tuple
  \<open>(dpos, dlen, ulen, flag, typcd, nm)\<close>; the entry handed to the writer is
  \<open>(patched, dlen, ulen, flag, typcd, nm, pathnm)\<close>; the PKG-patched TOC collects
  \<open>(where, dlen, ulen, flag, typcd, nm)\<close>. The patch set \<open>items\<close> is a dict from
  logical name to replacement path.
\<close>

type_synonym toc_entry = "nat \<times> nat \<times> nat \<times> nat \<times> string \<times> string"
type_synonym logic_entry = "nat \<times> nat \<times> nat \<times> nat \<times> string \<times> string \<times> string"
type_synonym items = "string \<rightharpoonup> string"

text \<open>
  What the program imports from PyInstaller, the Python runtime and the platform is a
  parameter: \<open>'c\<close> is the type of code objects. \<open>CArchiveReader\<close> gives
  \<open>pkg_start\<close> and the TOC of an executable; \<open>pyz_loadtoc\<close> and \<open>pyz_extract\<close> are
  \<open>ZlibArchiveReader\<close>'s TOC and \<open>extract\<close>; \<open>ZlibArchiveWriter\<close> gives the bytes
  of the PYZ file it writes; \<open>save_trailer\<close> is the TOC block and cookie that
  \<open>CArchiveWriter\<close> appends after the entries.
\<close>

record 'c env =
  is_darwin :: bool
  is_linux :: bool
  LEVEL :: nat
  zlib_compress :: "nat \<Rightarrow> bytes \<Rightarrow> bytes"
  py_compile :: "bytes \<Rightarrow> string \<Rightarrow> error + 'c"
  marshal_dumps :: "'c \<Rightarrow> bytes"
  mac_set_relative_dylib_deps :: "string \<Rightarrow> bytes \<Rightarrow> bytes"
  fix_exe_for_code_signing :: "bytes \<Rightarrow> bytes"
  save_trailer :: "toc_entry list \<Rightarrow> nat \<Rightarrow> string \<Rightarrow> bytes"
  decode :: "bytes \<Rightarrow> error + string"
  CArchiveReader :: "bytes \<Rightarrow> error + (nat \<times> toc_entry list)"
  pyz_MAGIC :: bytes
  pymagic :: bytes
  pyz_loadtoc :: "bytes \<Rightarrow> error + string list"
  pyz_extract :: "bytes \<Rightarrow> string \<Rightarrow> error + (nat \<times> 'c)"
  PYZ_TYPE_PKG :: nat
  ZlibArchiveWriter :: "(string \<times> string \<times> string) list \<Rightarrow> (string \<rightharpoonup> 'c) \<Rightarrow> error + bytes"

section \<open>Strings and paths\<close>

definition endswith :: "string \<Rightarrow> string \<Rightarrow> bool" where
  "endswith s suffix \<longleftrightarrow>
     length suffix \<le> length s \<and> drop (length s - length suffix) s = suffix"

definition startswith :: "string \<Rightarrow> string \<Rightarrow> bool" where
  "startswith s prefix \<longleftrightarrow> take (length prefix) s = prefix"

text \<open>\<open>os.path.join\<close> of two components, \<open>os.path.basename\<close> and
  \<open>os.path.splitext\<close> as posixpath defines them.\<close>

definition path_join :: "string \<Rightarrow> string \<Rightarrow> string" where
  "path_join a b =
     (if startswith b ''/'' then b
      else if a = [] \<or> endswith a ''/'' then a @ b
      else a @ ''/'' @ b)"

definition basename :: "string \<Rightarrow> string" where
  "basename p = rev (takeWhile (\<lambda>c. c \<noteq> CHR ''/'') (rev p))"

definition splitext :: "string \<Rightarrow> string \<times> string" where
  "splitext p =
     (let b = basename p;
          ext = rev (takeWhile (\<lambda>c. c \<noteq> CHR ''.'') (rev b));
          stem = take (length b - length ext - 1) b
      in if length ext < length b \<and> filter (\<lambda>c. c \<noteq> CHR ''.'') stem \<noteq> []
         then (take (length p - length ext - 1) p, CHR ''.'' # ext)
         else (p, []))"

text \<open>
  \<open>s.split(c)\<close> and \<open>sep.join(xs)\<close> of Python strings, with \<open>os.sep\<close> of POSIX.
\<close>

definition sep :: char where
  "sep = CHR ''/''"

fun str_split :: "char \<Rightarrow> string \<Rightarrow> string list" where
  "str_split c [] = [[]]"
| "str_split c (x # xs) =
     (if x = c then [] # str_split c xs
      else (case str_split c xs of
              [] \<Rightarrow> [[x]]
            | w # ws \<Rightarrow> (x # w) # ws))"

fun str_join :: "string \<Rightarrow> string list \<Rightarrow> string" where
  "str_join s [] = []"
| "str_join s [x] = x"
| "str_join s (x # y # ys) = x @ s @ str_join s (y # ys)"

text \<open>
  \<open>os.path.normpath\<close> of posixpath: empty and \<open>.\<close> components are dropped, \<open>..\<close>
  removes the component before it unless there is none to remove (it is kept in a
  relative path and dropped at the root); one or two leading slashes are kept.
\<close>

fun normpath_comps :: "nat \<Rightarrow> string list \<Rightarrow> string list \<Rightarrow> string list" where
  "normpath_comps initial_slashes [] new_comps = new_comps"
| "normpath_comps initial_slashes (part # comps) new_comps =
     (if part = [] \<or> part = ''.'' then normpath_comps initial_slashes comps new_comps
      else if part \<noteq> ''..'' \<or> (initial_slashes = 0 \<and> new_comps = [])
              \<or> (new_comps \<noteq> [] \<and> last new_comps = ''..'')
      then normpath_comps initial_slashes comps (new_comps @ [part])
      else if new_comps \<noteq> [] then normpath_comps initial_slashes comps (butlast new_comps)
      else normpath_comps initial_slashes comps new_comps)"

definition normpath :: "string \<Rightarrow> string" where
  "normpath path =
     (if path = [] then ''.''
      else
        (let initial_slashes =
               (if startswith path ''/''
                then (if startswith path ''//'' \<and> \<not> startswith path ''///'' then 2 else 1)
                else 0);
             comps = normpath_comps initial_slashes (str_split sep path) [];
             joined = replicate initial_slashes sep @ str_join ''/'' comps
         in if joined = [] then ''.'' else joined))"

section \<open>The CArchive writer\<close>

record writer =
  lib :: bytes
  toc :: "toc_entry list"

text \<open>
  \<open>CArchiveWriter2.add\<close>: \<open>where\<close> is the write cursor, the file at \<open>pathnm\<close> is
  read whole, a patched script or module is compiled and marshalled, and the payload is
  compressed only when the flag is 1 and the entry is patched. \<open>self.toc.add\<close> of
  PyInstaller's \<open>CTOC\<close> stores the entry under \<open>os.path.normpath(nm)\<close>.
\<close>

fun add :: "'c env \<Rightarrow> filesystem \<Rightarrow> writer \<Rightarrow> logic_entry \<Rightarrow> error + (filesystem \<times> writer)" where
  "add env fs w (patched, dlen, ulen, flag, typcd, nm, pathnm) =
     (let pos = length (lib w);
          fs1 = (if is_darwin env \<and> patched \<noteq> 0 \<and> typcd = ''b''
                 then (case fs pathnm of
                         None \<Rightarrow> Inl (IOError pathnm)
                       | Some b \<Rightarrow>
                           Inr (fs(pathnm \<mapsto> mac_set_relative_dylib_deps env (basename pathnm) b)))
                 else Inr fs)
      in case fs1 of
           Inl e \<Rightarrow> Inl e
         | Inr fs' \<Rightarrow>
            (case fs' pathnm of
               None \<Rightarrow> Inl (IOError pathnm)
             | Some filedata0 \<Rightarrow>
                (case (if patched \<noteq> 0
                       then (if typcd = ''s'' \<or> typcd = ''M''
                             then (case py_compile env filedata0 (''<'' @ nm @ ''>'') of
                                     Inl e \<Rightarrow> Inl e
                                   | Inr code \<Rightarrow>
                                       Inr (marshal_dumps env code,
                                            length (marshal_dumps env code)))
                             else Inr (filedata0, length filedata0))
                       else Inr (filedata0, ulen)) of
                   Inl e \<Rightarrow> Inl e
                 | Inr (filedata, ulen') \<Rightarrow>
                     (let lib' = lib w @ (if flag = 1 \<and> patched \<noteq> 0
                                          then zlib_compress env (LEVEL env) filedata
                                          else filedata);
                          dlen' = length lib' - pos
                      in Inr (fs', \<lparr>lib = lib',
                                    toc = toc w @ [(pos, dlen', ulen', flag, typcd, normpath nm)]\<rparr>)))))"

fun add_entries :: "'c env \<Rightarrow> filesystem \<Rightarrow> writer \<Rightarrow> logic_entry list \<Rightarrow> error + (filesystem \<times> writer)" where
  "add_entries env fs w [] = Inr (fs, w)"
| "add_entries env fs w (entry # rest) =
     (case add env fs w entry of
        Inl e \<Rightarrow> Inl e
      | Inr (fs', w') \<Rightarrow> add_entries env fs' w' rest)"

text \<open>
  Constructing \<open>CArchiveWriter2(pkgname, logic_toc, pylib_name)\<close>: the base class opens
  the package file for writing, which empties it, calls \<open>add\<close> on every entry in
  order, appends the TOC and the cookie, and closes the file. An entry whose source is the
  package file itself is read while the file is being written: it is read as empty here,
  and the statements below that depend on it exclude the case.
\<close>

definition CArchiveWriter2 :: "'c env \<Rightarrow> filesystem \<Rightarrow> string \<Rightarrow> logic_entry list \<Rightarrow> string \<Rightarrow> error + filesystem" where
  "CArchiveWriter2 env fs pkgname logic_toc pylib_name =
     (case add_entries env (fs(pkgname \<mapsto> [])) \<lparr>lib = [], toc = []\<rparr> logic_toc of
        Inl e \<Rightarrow> Inl e
      | Inr (fs', w) \<Rightarrow>
          Inr (fs'(pkgname \<mapsto> lib w @ save_trailer env (toc w) (length (lib w)) pylib_name)))"

section \<open>The PYZ archive\<close>

text \<open>
  \<open>ZlibArchive.checkmagic\<close>: the magic at \<open>start\<close> must match; a different
  \<open>pymagic\<close> only prints a warning (the result \<open>True\<close>); four more bytes are skipped.
\<close>

definition checkmagic :: "'c env \<Rightarrow> bytes \<Rightarrow> nat \<Rightarrow> string \<Rightarrow> error + bool" where
  "checkmagic env content start path =
     (if take (length (pyz_MAGIC env)) (drop start content) \<noteq> pyz_MAGIC env
      then Inl (RuntimeError (path @ '' is not a valid ZlibArchive archive file''))
      else Inr (take (length (pymagic env)) (drop (start + length (pyz_MAGIC env)) content)
                  \<noteq> pymagic env))"

text \<open>Opening \<open>ZlibArchive(pyz)\<close>: the reader checks the magic and loads the TOC.\<close>

definition ZlibArchive :: "'c env \<Rightarrow> filesystem \<Rightarrow> string \<Rightarrow> error + (bytes \<times> string list)" where
  "ZlibArchive env fs pyz =
     (case fs pyz of
        None \<Rightarrow> Inl (IOError pyz)
      | Some content \<Rightarrow>
         (case checkmagic env content 0 pyz of
            Inl e \<Rightarrow> Inl e
          | Inr warned \<Rightarrow>
             (case pyz_loadtoc env content of
                Inl e \<Rightarrow> Inl e
              | Inr names \<Rightarrow> Inr (content, names))))"

definition compile_code :: "'c env \<Rightarrow> filesystem \<Rightarrow> string \<Rightarrow> string \<Rightarrow> error + 'c" where
  "compile_code env fs name pyfile =
     (case fs pyfile of
        None \<Rightarrow> Inl (IOError pyfile)
      | Some src \<Rightarrow> py_compile env src (''<'' @ name @ ''>''))"

text \<open>
  The loop of \<open>repack_pyz\<close> over \<open>arch.toc\<close>: a name found in \<open>items\<close> is compiled
  from its replacement file, popped from \<open>items\<close> and counted; any other entry keeps its
  extracted code object.
\<close>

fun pyz_loop :: "'c env \<Rightarrow> filesystem \<Rightarrow> bytes \<Rightarrow> string list \<Rightarrow> items \<Rightarrow> nat
    \<Rightarrow> (string \<rightharpoonup> 'c) \<Rightarrow> (string \<times> string \<times> string) list
    \<Rightarrow> error + (items \<times> nat \<times> (string \<rightharpoonup> 'c) \<times> (string \<times> string \<times> string) list)" where
  "pyz_loop env fs arch [] items updated code_dict logic_toc =
     Inr (items, updated, code_dict, logic_toc)"
| "pyz_loop env fs arch (name # rest) items updated code_dict logic_toc =
     (case pyz_extract env arch name of
        Inl e \<Rightarrow> Inl e
      | Inr (typ, obj) \<Rightarrow>
         (let pathname = (if typ = PYZ_TYPE_PKG env then ''__init__.py'' else name) in
          case items name of
            Some pyfile \<Rightarrow>
              (case compile_code env fs name pyfile of
                 Inl e \<Rightarrow> Inl e
               | Inr code \<Rightarrow>
                   pyz_loop env fs arch rest (items(name := None)) (updated + 1)
                     (code_dict(name \<mapsto> code)) (logic_toc @ [(name, pathname, ''PYMODULE'')]))
          | None \<Rightarrow>
              pyz_loop env fs arch rest items updated
                (code_dict(name \<mapsto> obj)) (logic_toc @ [(name, pathname, ''PYMODULE'')])))"

text \<open>\<open>repack_pyz\<close> returns \<open>updated\<close>; the popped \<open>items\<close> and the file system with
  the rewritten PYZ file are returned with it.\<close>

definition repack_pyz :: "'c env \<Rightarrow> string \<Rightarrow> items \<Rightarrow> filesystem \<Rightarrow> error + (nat \<times> items \<times> filesystem)" where
  "repack_pyz env pyz items fs =
     (case ZlibArchive env fs pyz of
        Inl e \<Rightarrow> Inl e
      | Inr (arch, names) \<Rightarrow>
         (case pyz_loop env fs arch names items 0 Map.empty [] of
            Inl e \<Rightarrow> Inl e
          | Inr (items', updated, code_dict, logic_toc) \<Rightarrow>
             (case ZlibArchiveWriter env logic_toc code_dict of
                Inl e \<Rightarrow> Inl e
              | Inr content \<Rightarrow> Inr (updated, items', fs(pyz \<mapsto> content)))))"

section \<open>Locating and splicing the package\<close>

text \<open>\<open>struct\<close> format \<open>!i\<close>: four bytes, big-endian, signed.\<close>

definition unpack_i :: "bytes \<Rightarrow> int" where
  "unpack_i bs = sint (word_of_nat (foldl (\<lambda>acc b. acc * 256 + unat b) 0 bs) :: 32 word)"

definition PYINST_COOKIE_SIZE :: nat where
  "PYINST_COOKIE_SIZE = 24 + 64"

text \<open>
  \<open>get_carchive_info\<close>: the cookie is the last 88 bytes (seeking to a negative position
  raises); \<open>lengthofPackage\<close> is its second field and \<open>pylibname\<close> its last 64 bytes.
  Python integers are unbounded, so \<open>pos\<close> is an \<open>int\<close>.
\<close>

definition get_carchive_info :: "'c env \<Rightarrow> filesystem \<Rightarrow> string \<Rightarrow> error + (int \<times> string)" where
  "get_carchive_info env fs filepath =
     (case fs filepath of
        None \<Rightarrow> Inl (IOError filepath)
      | Some content \<Rightarrow>
         (let size = length content in
          if size < PYINST_COOKIE_SIZE then Inl OSError
          else
            (let cookie = drop (size - PYINST_COOKIE_SIZE) content;
                 lengthofPackage = unpack_i (take 4 (drop 8 cookie));
                 pylibname = take 64 (drop 24 cookie);
                 pos = int size - lengthofPackage
             in case decode env pylibname of
                  Inl e \<Rightarrow> Inl e
                | Inr s \<Rightarrow> Inr (pos, s))))"

text \<open>
  The splice of \<open>repack_exe\<close>: seek to \<open>offset\<close> in the output (a negative position
  raises, a position past the end leaves a gap of zero bytes), copy the package there and
  truncate at the cursor.
\<close>

definition update_pkg :: "bytes \<Rightarrow> int \<Rightarrow> bytes \<Rightarrow> error + bytes" where
  "update_pkg old offset pkg =
     (if offset < 0 then Inl OSError
      else Inr (take (nat offset) old @ replicate (nat offset - length old) 0 @ pkg))"

text \<open>
  \<open>repack_exe\<close> up to the splice. On Linux the package is handed to a spawned
  \<open>objcopy\<close>, which is not waited for: the command is recorded and the output file is
  left as it is. The package file is taken to be a file other than the output.
\<close>

definition repack_exe_spliced :: "'c env \<Rightarrow> string \<Rightarrow> string \<Rightarrow> logic_entry list \<Rightarrow> filesystem
    \<Rightarrow> error + (filesystem \<times> string list list)" where
  "repack_exe_spliced env path output logic_toc fs =
     (case get_carchive_info env fs output of
        Inl e \<Rightarrow> Inl e
      | Inr (offset, pylib_name) \<Rightarrow>
         (let pkgname = path_join path ''PKG-patched'' in
          case CArchiveWriter2 env fs pkgname logic_toc pylib_name of
            Inl e \<Rightarrow> Inl e
          | Inr fs1 \<Rightarrow>
             if is_linux env
             then Inr (fs1, [[''objcopy'', ''--update-section'', ''pydata='' @ pkgname, output]])
             else (case fs1 output of
                     None \<Rightarrow> Inl (IOError output)
                   | Some old \<Rightarrow>
                      (case fs1 pkgname of
                         None \<Rightarrow> Inl (IOError pkgname)
                       | Some pkg \<Rightarrow>
                          (case update_pkg old offset pkg of
                             Inl e \<Rightarrow> Inl e
                           | Inr new \<Rightarrow> Inr (fs1(output \<mapsto> new), []))))))"

definition repack_exe :: "'c env \<Rightarrow> string \<Rightarrow> string \<Rightarrow> logic_entry list \<Rightarrow> filesystem
    \<Rightarrow> error + (filesystem \<times> string list list)" where
  "repack_exe env path output logic_toc fs =
     (case repack_exe_spliced env path output logic_toc fs of
        Inl e \<Rightarrow> Inl e
      | Inr (fs2, spawned) \<Rightarrow>
         if is_darwin env
         then (case fs2 output of
                 None \<Rightarrow> Inl (IOError output)
               | Some b \<Rightarrow> Inr (fs2(output \<mapsto> fix_exe_for_code_signing env b), spawned))
         else Inr (fs2, spawned))"

section \<open>The repack engine\<close>

text \<open>
  The loop of \<open>repacker\<close> over the outer TOC. \<open>content\<close> is the executable as the
  reader opened it. Every entry is extracted to \<open>path/nm\<close>; a \<open>.pyz\<close> entry of
  type z or Z (\<open>pyz_entry\<close>, the test that \<open>print_archive_items\<close> makes too) is
  repacked in place and gets the number of updated modules as its patched value; another
  entry found in \<open>items\<close> gets patched value 1 and its replacement path.
\<close>

definition pyz_entry :: "string \<Rightarrow> string \<Rightarrow> bool" where
  "pyz_entry nm typcd \<longleftrightarrow> endswith nm ''.pyz'' \<and> (typcd = ''z'' \<or> typcd = ''Z'')"

fun repacker_loop :: "'c env \<Rightarrow> bytes \<Rightarrow> nat \<Rightarrow> string \<Rightarrow> toc_entry list \<Rightarrow> filesystem \<Rightarrow> items
    \<Rightarrow> logic_entry list \<Rightarrow> error + (filesystem \<times> items \<times> logic_entry list)" where
  "repacker_loop env content pkg_start path [] fs items logic_toc = Inr (fs, items, logic_toc)"
| "repacker_loop env content pkg_start path ((dpos, dlen, ulen, flag, typcd, nm) # rest) fs items logic_toc =
     (let pathnm = path_join path nm;
          fs1 = fs(pathnm \<mapsto> take dlen (drop (pkg_start + dpos) content))
      in if pyz_entry nm typcd
         then (case repack_pyz env pathnm items fs1 of
                 Inl e \<Rightarrow> Inl e
               | Inr (patched, items', fs2) \<Rightarrow>
                   repacker_loop env content pkg_start path rest fs2 items'
                     (logic_toc @ [(patched, dlen, ulen, flag, typcd, nm, pathnm)]))
         else (case items nm of
                 Some newpath \<Rightarrow>
                   repacker_loop env content pkg_start path rest fs1 items
                     (logic_toc @ [(1, dlen, ulen, flag, typcd, nm, newpath)])
               | None \<Rightarrow>
                   repacker_loop env content pkg_start path rest fs1 items
                     (logic_toc @ [(0, dlen, ulen, flag, typcd, nm, pathnm)])))"

definition repacker :: "'c env \<Rightarrow> string \<Rightarrow> items \<Rightarrow> filesystem \<Rightarrow> error + (filesystem \<times> string list list)" where
  "repacker env executable items fs =
     (let (name, ext) = splitext (basename executable) in
      case fs executable of
        None \<Rightarrow> Inl (IOError executable)
      | Some content \<Rightarrow>
         (case CArchiveReader env content of
            Inl e \<Rightarrow> Inl e
          | Inr (pkg_start, arch_toc) \<Rightarrow>
             (let path = name @ ''_extracted'' in
              case repacker_loop env content pkg_start path arch_toc fs items [] of
                Inl e \<Rightarrow> Inl e
              | Inr (fs1, items1, logic_toc) \<Rightarrow>
                 (let output = name @ ''-patched'' @ ext in
                  case fs1 executable of
                    None \<Rightarrow> Inl (IOError executable)
                  | Some copied \<Rightarrow>
                      repack_exe env path output logic_toc (fs1(output \<mapsto> copied))))))"

text \<open>
  The names a patch set can match: the names of the outer entries, and for every PYZ entry
  the names in its inner TOC, read from the bytes stored for that entry.
\<close>

definition inner_names :: "'c env \<Rightarrow> bytes \<Rightarrow> string set" where
  "inner_names env stored = (case pyz_loadtoc env stored of Inl e \<Rightarrow> {} | Inr names \<Rightarrow> set names)"

fun toc_names :: "'c env \<Rightarrow> bytes \<Rightarrow> nat \<Rightarrow> toc_entry list \<Rightarrow> string set" where
  "toc_names env content pkg_start [] = {}"
| "toc_names env content pkg_start ((dpos, dlen, ulen, flag, typcd, nm) # rest) =
     {nm} \<union> (if pyz_entry nm typcd
             then inner_names env (take dlen (drop (pkg_start + dpos) content))
             else {})
          \<union> toc_names env content pkg_start rest"

text \<open>The working path an outer entry is extracted to.\<close>

definition entry_path :: "string \<Rightarrow> toc_entry \<Rightarrow> string" where
  "entry_path path entry =
     (case entry of (dpos, dlen, ulen, flag, typcd, nm) \<Rightarrow> path_join path nm)"

definition archive_names :: "'c env \<Rightarrow> filesystem \<Rightarrow> string \<Rightarrow> string set" where
  "archive_names env fs executable =
     (case fs executable of
        None \<Rightarrow> {}
      | Some content \<Rightarrow>
         (case CArchiveReader env content of
            Inl e \<Rightarrow> {}
          | Inr (pkg_start, arch_toc) \<Rightarrow> toc_names env content pkg_start arch_toc))"

text \<open>The file an annotated entry is read from by the writer.\<close>

definition entry_source :: "logic_entry \<Rightarrow> string" where
  "entry_source entry =
     (case entry of (patched, dlen, ulen, flag, typcd, nm, pathnm) \<Rightarrow> pathnm)"

text \<open>
  The file system is keyed by path strings and holds no directories, so a statement about
  what is read back has to keep out two strings that name one file, a string that names a
  directory, and a file that lies on the way to another. \<open>plain_path\<close> holds of a
  path that is in normal form, relative, and strictly below the current directory;
  \<open>separate_files\<close> holds of paths that are all plain, differ from one another, and
  have neither one another nor an existing file as a directory on their way.
\<close>

definition plain_path :: "string \<Rightarrow> bool" where
  "plain_path p \<longleftrightarrow>
     normpath p = p \<and> p \<noteq> ''.'' \<and> p \<noteq> ''..'' \<and>
     \<not> startswith p ''/'' \<and> \<not> startswith p ''../''"

definition separate_files :: "filesystem \<Rightarrow> string list \<Rightarrow> bool" where
  "separate_files fs ps \<longleftrightarrow>
     list_all plain_path ps \<and> distinct ps \<and>
     (\<forall>p \<in> set ps. \<forall>q \<in> set ps \<union> dom fs. \<not> startswith p (normpath q @ ''/''))"

section \<open>The patch resolver\<close>

text \<open>
  Further string methods of Python as the resolver uses them, on POSIX (\<open>os.pathsep\<close>
  is \<open>:\<close>): \<open>s.find(c)\<close> for a one-character \<open>c\<close>, \<open>s.strip('.')\<close>, the slice
  \<open>xs[i:]\<close> and the index \<open>xs[i]\<close> with Python's negative positions.
\<close>

definition pathsep :: char where
  "pathsep = CHR '':''"

definition str_find :: "string \<Rightarrow> char \<Rightarrow> int" where
  "str_find s c = (if c \<in> set s then int (length (takeWhile (\<lambda>x. x \<noteq> c) s)) else - 1)"

definition str_strip :: "char \<Rightarrow> string \<Rightarrow> string" where
  "str_strip c s = rev (dropWhile (\<lambda>x. x = c) (rev (dropWhile (\<lambda>x. x = c) s)))"

definition slice_from :: "'a list \<Rightarrow> int \<Rightarrow> 'a list" where
  "slice_from xs i = (if i < 0 then drop (nat (int (length xs) + i)) xs else drop (nat i) xs)"

definition index :: "'a list \<Rightarrow> int \<Rightarrow> error + 'a" where
  "index xs i =
     (if 0 \<le> i \<and> i < int (length xs) then Inr (xs ! nat i)
      else if i < 0 \<and> - i \<le> int (length xs) then Inr (xs ! nat (int (length xs) + i))
      else Inl IndexError)"

text \<open>
  The body of the loop of \<open>build_updated_items\<close> for one \<open>filename\<close>: the pair
  \<open>(name, pathnm)\<close> stored by \<open>items[name] = pathnm\<close>. With an explicit
  \<open>name:path\<close> the source normalises \<open>filename\<close> itself, not the part after the
  separator. The suffixes are tried in the order \<open>.py\<close>, \<open>__init__.py\<close>.
\<close>

definition drop_suffix :: "string \<Rightarrow> string \<Rightarrow> string" where
  "drop_suffix name suffix =
     (if endswith name suffix
      then str_strip CHR ''.'' (take (length name - length suffix) name)
      else name)"

definition item_of :: "string \<Rightarrow> int option \<Rightarrow> error + (string \<times> string)" where
  "item_of filename strip =
     (if str_find filename pathsep > 0
      then Inr (takeWhile (\<lambda>x. x \<noteq> pathsep) filename, normpath filename)
      else
        (let pathnm = normpath filename;
             namelist = str_split sep pathnm
         in case (case strip of
                    None \<Rightarrow> index namelist (if endswith pathnm ''__init__.py'' then - 2 else - 1)
                  | Some n \<Rightarrow> Inr (str_join ''.'' (slice_from namelist n))) of
              Inl e \<Rightarrow> Inl e
            | Inr name \<Rightarrow> Inr (drop_suffix (drop_suffix name ''.py'') ''__init__.py'', pathnm)))"

fun build_items :: "string list \<Rightarrow> int option \<Rightarrow> items \<Rightarrow> error + items" where
  "build_items [] strip items = Inr items"
| "build_items (filename # files) strip items =
     (case item_of filename strip of
        Inl e \<Rightarrow> Inl e
      | Inr (name, pathnm) \<Rightarrow> build_items files strip (items(name \<mapsto> pathnm)))"

text \<open>
  \<open>build_updated_items\<close> fills the local dict \<open>items\<close> and ends without a
  \<open>return\<close> statement: the value of the call is Python's \<open>None\<close>, here \<open>None\<close> of
  the option type.
\<close>

definition build_updated_items :: "string list \<Rightarrow> int option \<Rightarrow> error + items option" where
  "build_updated_items files strip =
     (case build_items files strip Map.empty of
        Inl e \<Rightarrow> Inl e
      | Inr items \<Rightarrow> Inr None)"

section \<open>The lister\<close>

text \<open>
  \<open>print_archive_items\<close> reports through \<open>logger.info\<close>; the calls are collected in
  order. It extracts every PYZ entry to the working directory (named after the
  executable's base name) and then lists the inner names of each.
\<close>

datatype listing =
    Bundle string
  | ExtractedTo string
  | PkgItems
  | Item string nat
  | PyzItems string
  | PyzItem string

fun list_outer :: "bytes \<Rightarrow> nat \<Rightarrow> string \<Rightarrow> toc_entry list \<Rightarrow> filesystem \<Rightarrow> string list
    \<Rightarrow> listing list \<Rightarrow> filesystem \<times> string list \<times> listing list" where
  "list_outer content pkg_start path [] fs pyzlist logs = (fs, pyzlist, logs)"
| "list_outer content pkg_start path ((dpos, dlen, ulen, flag, typcd, nm) # rest) fs pyzlist logs =
     (if pyz_entry nm typcd
      then list_outer content pkg_start path rest
             (fs(path_join path nm \<mapsto> take dlen (drop (pkg_start + dpos) content)))
             (pyzlist @ [path_join path nm]) logs
      else list_outer content pkg_start path rest fs pyzlist (logs @ [Item nm ulen]))"

fun list_inner :: "'c env \<Rightarrow> filesystem \<Rightarrow> string list \<Rightarrow> listing list \<Rightarrow> error + listing list" where
  "list_inner env fs [] logs = Inr logs"
| "list_inner env fs (pyz # rest) logs =
     (case ZlibArchive env fs pyz of
        Inl e \<Rightarrow> Inl e
      | Inr (arch, names) \<Rightarrow> list_inner env fs rest (logs @ [PyzItems pyz] @ map PyzItem names))"

definition print_archive_items :: "'c env \<Rightarrow> string \<Rightarrow> filesystem \<Rightarrow> error + (filesystem \<times> listing list)" where
  "print_archive_items env executable fs =
     (let path = basename executable @ ''_extracted'' in
      case fs executable of
        None \<Rightarrow> Inl (IOError executable)
      | Some content \<Rightarrow>
         (case CArchiveReader env content of
            Inl e \<Rightarrow> Inl e
          | Inr (pkg_start, arch_toc) \<Rightarrow>
             (case list_outer content pkg_start path arch_toc fs []
                     [Bundle executable, ExtractedTo path, PkgItems] of
                (fs1, pyzlist, logs) \<Rightarrow>
                  (case list_inner env fs1 pyzlist logs of
                     Inl e \<Rightarrow> Inl e
                   | Inr logs' \<Rightarrow> Inr (fs1, logs')))))"

section \<open>The error hook and the command line\<close>

text \<open>
  The values an exception can carry in \<open>args\<close>: strings, integers, type objects (by
  name), tuples, unions of types and anything else. \<open>isinstance(str, x)\<close>, the test that
  \<open>excepthook\<close> makes, takes for \<open>x\<close> a type, a union of types or a tuple of such
  (searched from the left until one matches) and raises \<open>TypeError\<close> for anything
  else; \<open>str\<close> is an instance of \<open>type\<close> and of \<open>object\<close> only.
\<close>

datatype pyval =
    PStr string
  | PInt int
  | PType string
  | PUnion "string list"
  | PTuple "pyval list"
  | POther

fun isinstance_str :: "pyval \<Rightarrow> error + bool"
  and isinstance_str_any :: "pyval list \<Rightarrow> error + bool" where
  "isinstance_str (PType t) = Inr (t = ''type'' \<or> t = ''object'')"
| "isinstance_str (PUnion ts) = Inr (''type'' \<in> set ts \<or> ''object'' \<in> set ts)"
| "isinstance_str (PTuple xs) = isinstance_str_any xs"
| "isinstance_str (PStr s) = Inl TypeError"
| "isinstance_str (PInt n) = Inl TypeError"
| "isinstance_str POther = Inl TypeError"
| "isinstance_str_any [] = Inr False"
| "isinstance_str_any (x # xs) =
     (case isinstance_str x of
        Inl e \<Rightarrow> Inl e
      | Inr True \<Rightarrow> Inr True
      | Inr False \<Rightarrow> isinstance_str_any xs)"

text \<open>
  \<open>excepthook(type, value, traceback)\<close>: \<open>args\<close> is \<open>value.args\<close> (every exception
  has the attribute). The result is the list of \<open>logger.error\<close> calls made and the
  exception the hook ends with: \<open>SystemExit 1\<close> from \<open>sys.exit(1)\<close>, or the error of
  the test itself.
\<close>

datatype report = ErrorArgs "pyval list" | ErrorValue error

definition excepthook :: "error \<Rightarrow> pyval list \<Rightarrow> report list \<times> error" where
  "excepthook val args =
     (case args of
        [] \<Rightarrow> ([], IndexError)
      | a # rest \<Rightarrow>
         (case isinstance_str a of
            Inl e \<Rightarrow> ([], e)
          | Inr True \<Rightarrow> ([ErrorArgs args], SystemExit 1)
          | Inr False \<Rightarrow> ([ErrorValue val], SystemExit 1)))"

text \<open>The \<open>args\<close> of the exceptions of the model, as Python builds them.\<close>

fun args_of :: "error \<Rightarrow> pyval list" where
  "args_of (IOError path) = [PInt 2, PStr ''No such file or directory'']"
| "args_of OSError = [PInt 22, PStr ''Invalid argument'']"
| "args_of (RuntimeError msg) = [PStr msg]"
| "args_of SyntaxError = [PStr ''invalid syntax'', POther]"
| "args_of UnicodeDecodeError = [PStr ''utf-8'', POther, POther, POther, POther]"
| "args_of TypeError = [PStr ''isinstance() arg 2 must be a type'']"
| "args_of IndexError = [PStr ''list index out of range'']"
| "args_of AttributeError = [PStr ''NoneType object has no attribute keys'']"
| "args_of (SystemExit n) = [PInt (int n)]"
| "args_of (LibraryError msg) = [PStr msg]"

text \<open>
  The positional arguments as \<open>argparse\<close> takes them: \<open>executable\<close> is required and
  \<open>files\<close> is declared with \<open>nargs='?'\<close>, so it is \<open>None\<close> or one string; any other
  number of positionals ends in the parser's usage error, exit status 2.
\<close>

fun parse_positionals :: "string list \<Rightarrow> error + (string \<times> string option)" where
  "parse_positionals [executable] = Inr (executable, None)"
| "parse_positionals [executable, files] = Inr (executable, Some files)"
| "parse_positionals args = Inl (SystemExit 2)"

datatype result = Listed filesystem "listing list" | Repacked filesystem "string list list"

text \<open>
  \<open>main\<close>, given the parsed options \<open>debug\<close> and \<open>strip\<close> and the positional
  arguments. The first component tells whether \<open>sys.excepthook\<close> has been replaced: the
  assignment comes after \<open>parse_args\<close> and only without \<open>--debug\<close>. \<open>args.files\<close> is a
  string, so the loop of \<open>build_updated_items\<close> runs over its characters; the resolver
  returns \<open>None\<close>, and \<open>items.keys()\<close> raises \<open>AttributeError\<close> on it.
\<close>

definition main :: "'c env \<Rightarrow> bool \<Rightarrow> int \<Rightarrow> string list \<Rightarrow> filesystem \<Rightarrow> bool \<times> (error + result)" where
  "main env debug strip positionals fs =
     (case parse_positionals positionals of
        Inl e \<Rightarrow> (False, Inl e)
      | Inr (executable, files) \<Rightarrow>
         (\<not> debug,
          case files of
            None \<Rightarrow>
              (case print_archive_items env executable fs of
                 Inl e \<Rightarrow> Inl e
               | Inr (fs', logs) \<Rightarrow> Inr (Listed fs' logs))
          | Some file \<Rightarrow>
              (case build_updated_items (map (\<lambda>c. [c]) file) (Some strip) of
                 Inl e \<Rightarrow> Inl e
               | Inr None \<Rightarrow> Inl AttributeError
               | Inr (Some items) \<Rightarrow>
                  (case repacker env executable items fs of
                     Inl e \<Rightarrow> Inl e
                   | Inr (fs', spawned) \<Rightarrow> Inr (Repacked fs' spawned)))))"

text \<open>
  The end of the process: status 0 when \<open>main\<close> returns; the status of a
  \<open>SystemExit\<close>; for any other exception the installed hook if there is one, else the
  interpreter's default handler, which prints the traceback and ends with status 1, as
  the interpreter also does when the hook itself raises.
\<close>

datatype handler = Returned | Exited | Hook | HookFailed error | DefaultTraceback

fun finish :: "bool \<times> (error + result) \<Rightarrow> nat \<times> handler \<times> report list" where
  "finish (hook, Inr r) = (0, Returned, [])"
| "finish (hook, Inl (SystemExit n)) = (n, Exited, [])"
| "finish (hook, Inl e) =
     (if hook
      then (case excepthook e (args_of e) of
              (reports, SystemExit n) \<Rightarrow> (n, Hook, reports)
            | (reports, e') \<Rightarrow> (1, HookFailed e', reports))
      else (1, DefaultTraceback, []))"

definition process :: "'c env \<Rightarrow> bool \<Rightarrow> int \<Rightarrow> string list \<Rightarrow> filesystem \<Rightarrow> nat \<times> handler \<times> report list" where
  "process env debug strip positionals fs = finish (main env debug strip positionals fs)"

section \<open>Example environment\<close>

text \<open>
  A small concrete environment on which the definitions can be run: code objects are
  byte strings, compiling is the identity, marshalling and compression put marker bytes
  in front, and a PYZ archive holds one module \<open>mod\<close> after a twelve-byte header.
  These stand-ins replace the real libraries in examples only. The example bundle
  \<open>app.exe\<close> has a two-byte bootloader, a script entry \<open>mod\<close> and a PYZ entry
  \<open>lib.pyz\<close> written by another Python version (its \<open>pymagic\<close> is 9 9 9 9).
\<close>

definition demo_env :: "bytes env" where
  "demo_env = \<lparr>
     is_darwin = False, is_linux = False, LEVEL = 9,
     zlib_compress = (\<lambda>level bs. [0x78, 0xDA] @ bs),
     py_compile = (\<lambda>src filename. Inr src),
     marshal_dumps = (\<lambda>code. 0x63 # code),
     mac_set_relative_dylib_deps = (\<lambda>name b. b),
     fix_exe_for_code_signing = (\<lambda>b. b),
     save_trailer = (\<lambda>t pos pylib. replicate 8 0x4D @ [0, 0, 0, of_nat (pos + 88)] @ replicate 76 0),
     decode = (\<lambda>bs. Inr ''libpython''),
     CArchiveReader = (\<lambda>content. Inr (2, [(0, 3, 3, 1, ''s'', ''mod''), (3, 14, 14, 0, ''z'', ''lib.pyz'')])),
     pyz_MAGIC = [0x50, 0x59, 0x5A, 0],
     pymagic = [1, 2, 3, 4],
     pyz_loadtoc = (\<lambda>content. Inr [''mod'']),
     pyz_extract = (\<lambda>content name. Inr (0, drop 12 content)),
     PYZ_TYPE_PKG = 1,
     ZlibArchiveWriter = (\<lambda>t d. Inr ([0x50, 0x59, 0x5A, 0, 1, 2, 3, 4, 0, 0, 0, 0] @
         concat (map (\<lambda>(n, p, k). case d n of None \<Rightarrow> [] | Some c \<Rightarrow> c) t)))\<rparr>"

definition demo_pyz :: bytes where
  "demo_pyz = [0x50, 0x59, 0x5A, 0, 9, 9, 9, 9, 0, 0, 0, 0, 5, 6]"

definition demo_exe :: bytes where
  "demo_exe = [0xAA, 0xBB] @ [1, 2, 3] @ demo_pyz @ replicate 8 0x4D @ [0, 0, 0, 105] @ replicate 76 0"

definition demo_toc :: "toc_entry list" where
  "demo_toc = [(0, 3, 3, 1, ''s'', ''mod''), (3, 14, 14, 0, ''z'', ''lib.pyz'')]"

definition demo_files :: filesystem where
  "demo_files = [''app.exe'' \<mapsto> demo_exe, ''work/data'' \<mapsto> [1, 2, 3], ''new.py'' \<mapsto> [7, 8]]"

definition empty_writer :: writer where
  "empty_writer = \<lparr>lib = [], toc = []\<rparr>"

definition demo_rewritten :: bytes where
  "demo_rewritten = [0x50, 0x59, 0x5A, 0, 1, 2, 3, 4, 0, 0, 0, 0, 5, 6]"

definition demo_extracted :: filesystem where
  "demo_extracted = demo_files(''app_extracted/mod'' \<mapsto> [1, 2, 3],
                               ''app_extracted/lib.pyz'' \<mapsto> demo_rewritten)"

definition demo_logic_toc :: "logic_entry list" where
  "demo_logic_toc = [(0, 3, 3, 1, ''s'', ''mod'', ''app_extracted/mod''),
                     (0, 14, 14, 0, ''z'', ''lib.pyz'', ''app_extracted/lib.pyz'')]"

definition demo_writer :: writer where
  "demo_writer = \<lparr>lib = [1, 2, 3] @ demo_rewritten,
                   toc = [(0, 3, 3, 1, ''s'', ''mod''), (3, 14, 14, 0, ''z'', ''lib.pyz'')]\<rparr>"

definition demo_pkg :: bytes where
  "demo_pkg = [1, 2, 3] @ demo_rewritten @ replicate 8 0x4D @ [0, 0, 0, 105] @ replicate 76 0"

definition demo_copied :: filesystem where
  "demo_copied = demo_extracted(''app-patched.exe'' \<mapsto> demo_exe)"

section \<open>Lemmas about the repack engine\<close>

subsection \<open>The PYZ loop\<close>

lemma pyz_loop_items:
  "pyz_loop env fs arch names items u cd lt = Inr (items', r) \<Longrightarrow> items' = items |` (- set names)"
proof (induction names arbitrary: items u cd lt)
  case Nil
  then show ?case by simp
next
  case (Cons name rest)
  show ?case
  proof (cases "items name")
    case None
    with Cons.prems have "pyz_loop env fs arch rest items u
        (cd(name \<mapsto> snd (projr (pyz_extract env arch name))))
        (lt @ [(name, if fst (projr (pyz_extract env arch name)) = PYZ_TYPE_PKG env then ''__init__.py'' else name, ''PYMODULE'')]) = Inr (items', r)"
      by (auto simp: Let_def split: sum.splits)
    from Cons.IH [OF this] have "items' = items |` (- set rest)" .
    with None show ?thesis
      by (auto simp: restrict_map_def fun_eq_iff)
  next
    case (Some pyfile)
    with Cons.prems obtain u' cd' lt' where
      "pyz_loop env fs arch rest (items(name := None)) u' cd' lt' = Inr (items', r)"
      by (auto simp: Let_def split: sum.splits)
    from Cons.IH [OF this] have "items' = (items(name := None)) |` (- set rest)" .
    then show ?thesis
      by (auto simp: restrict_map_def fun_eq_iff)
  qed
qed

lemma pyz_loop_updated:
  "pyz_loop env fs arch names items u cd lt = Inr (items', u', r) \<Longrightarrow>
     u' = u + card (set names \<inter> dom items)"
proof (induction names arbitrary: items u cd lt)
  case Nil
  then show ?case by simp
next
  case (Cons name rest)
  show ?case
  proof (cases "items name")
    case None
    with Cons.prems obtain cd' lt' where
      "pyz_loop env fs arch rest items u cd' lt' = Inr (items', u', r)"
      by (auto simp: Let_def split: sum.splits)
    from Cons.IH [OF this] have "u' = u + card (set rest \<inter> dom items)" .
    moreover from None have "set (name # rest) \<inter> dom items = set rest \<inter> dom items"
      by auto
    ultimately show ?thesis by simp
  next
    case (Some pyfile)
    with Cons.prems obtain cd' lt' where
      "pyz_loop env fs arch rest (items(name := None)) (u + 1) cd' lt' = Inr (items', u', r)"
      by (auto simp: Let_def split: sum.splits)
    from Cons.IH [OF this]
    have "u' = u + 1 + card (set rest \<inter> dom (items(name := None)))" .
    moreover from Some have "set (name # rest) \<inter> dom items
        = insert name (set rest \<inter> dom (items(name := None)))"
      by auto
    moreover have "name \<notin> set rest \<inter> dom (items(name := None))" by simp
    ultimately show ?thesis by simp
  qed
qed

lemma pyz_loop_agree:
  "\<forall>k \<in> set names. items1 k = items2 k \<Longrightarrow>
     map_sum id snd (pyz_loop env fs arch names items1 u cd lt)
       = map_sum id snd (pyz_loop env fs arch names items2 u cd lt)"
proof (induction names arbitrary: items1 items2 u cd lt)
  case Nil
  then show ?case by simp
next
  case (Cons name rest)
  have same: "items1 name = items2 name" using Cons.prems by simp
  show ?case
  proof (cases "pyz_extract env arch name")
    case (Inl e)
    then show ?thesis by simp
  next
    case (Inr res)
    obtain ty obj where res: "res = (ty, obj)" by (cases res)
    define lt' where "lt' = lt @ [(name, if ty = PYZ_TYPE_PKG env then ''__init__.py'' else name, ''PYMODULE'')]"
    show ?thesis
    proof (cases "items2 name")
      case None
      have step: "pyz_loop env fs arch (name # rest) it u cd lt
          = pyz_loop env fs arch rest it u (cd(name \<mapsto> obj)) lt'" if "it name = None" for it
        using that Inr res by (simp add: lt'_def)
      have "\<forall>k \<in> set rest. items1 k = items2 k" using Cons.prems by simp
      from Cons.IH [OF this, of u "cd(name \<mapsto> obj)" lt'] show ?thesis
        using None same by (simp only: step)
    next
      case (Some pyfile)
      show ?thesis
      proof (cases "compile_code env fs name pyfile")
        case (Inl e)
        then show ?thesis using Inr res Some same by simp
      next
        case code: (Inr code)
        have step: "pyz_loop env fs arch (name # rest) it u cd lt
            = pyz_loop env fs arch rest (it(name := None)) (u + 1) (cd(name \<mapsto> code)) lt'"
          if "it name = Some pyfile" for it
          using that Inr res code by (simp add: lt'_def)
        have "\<forall>k \<in> set rest. (items1(name := None)) k = (items2(name := None)) k"
          using Cons.prems by simp
        from Cons.IH [OF this, of "u + 1" "cd(name \<mapsto> code)" lt'] show ?thesis
          using Some same by (simp only: step)
      qed
    qed
  qed
qed

lemma repack_pyz_items:
  assumes "repack_pyz env p items fs = Inr (u, items', fs')" and "fs p = Some stored"
  shows "items' = items |` (- inner_names env stored)"
proof -
  from assms obtain names r where
    names: "pyz_loadtoc env stored = Inr names"
    and loop: "pyz_loop env fs stored names items 0 Map.empty [] = Inr (items', r)"
    by (auto simp: repack_pyz_def ZlibArchive_def split: sum.splits)
  from pyz_loop_items [OF loop] names show ?thesis
    by (simp add: inner_names_def)
qed

lemma repack_pyz_updated:
  assumes "repack_pyz env p items fs = Inr (u, items', fs')" and "fs p = Some stored"
  shows "u = card (inner_names env stored \<inter> dom items)"
proof -
  from assms obtain names r where
    names: "pyz_loadtoc env stored = Inr names"
    and loop: "pyz_loop env fs stored names items 0 Map.empty [] = Inr (items', u, r)"
    by (auto simp: repack_pyz_def ZlibArchive_def split: sum.splits)
  from pyz_loop_updated [OF loop] names show ?thesis
    by (simp add: inner_names_def)
qed

lemma repack_pyz_agree:
  assumes "\<forall>k \<in> inner_names env stored. items1 k = items2 k" and "fs p = Some stored"
  shows "map_sum id (\<lambda>(u, it, fs'). (u, fs')) (repack_pyz env p items1 fs)
           = map_sum id (\<lambda>(u, it, fs'). (u, fs')) (repack_pyz env p items2 fs)"
proof (cases "ZlibArchive env fs p")
  case (Inl e)
  then show ?thesis by (simp add: repack_pyz_def)
next
  case (Inr res)
  obtain arch names where res: "res = (arch, names)" by (cases res)
  from Inr res assms(2) have names: "pyz_loadtoc env stored = Inr names"
    by (auto simp: ZlibArchive_def split: sum.splits)
  with assms(1) have "\<forall>k \<in> set names. items1 k = items2 k"
    by (simp add: inner_names_def)
  from pyz_loop_agree [OF this, of env fs arch 0 Map.empty "[]"]
  show ?thesis
    using Inr res
    by (auto simp: repack_pyz_def split: sum.splits)
qed

subsection \<open>The outer loop\<close>

lemma repack_pyz_fs:
  assumes "repack_pyz env p items fs = Inr (u, items', fs')"
  shows "\<exists>written. fs' = fs(p \<mapsto> written)"
proof -
  from assms obtain written where "fs' = fs(p \<mapsto> written)"
    by (auto simp: repack_pyz_def split: sum.splits)
  then show ?thesis ..
qed

lemma repacker_loop_step_pyz:
  assumes "pyz_entry nm typcd"
  shows "repacker_loop env content pkg_start path ((dpos, dlen, ulen, flag, typcd, nm) # rest) fs items ltoc =
     (case repack_pyz env (path_join path nm) items
             (fs(path_join path nm \<mapsto> take dlen (drop (pkg_start + dpos) content))) of
        Inl e \<Rightarrow> Inl e
      | Inr (patched, items', fs2) \<Rightarrow>
          repacker_loop env content pkg_start path rest fs2 items'
            (ltoc @ [(patched, dlen, ulen, flag, typcd, nm, path_join path nm)]))"
  using assms by (simp add: Let_def)

lemma repacker_loop_step_other:
  assumes "\<not> pyz_entry nm typcd"
  shows "repacker_loop env content pkg_start path ((dpos, dlen, ulen, flag, typcd, nm) # rest) fs items ltoc =
     repacker_loop env content pkg_start path rest
       (fs(path_join path nm \<mapsto> take dlen (drop (pkg_start + dpos) content))) items
       (ltoc @ [(case items nm of
                   Some newpath \<Rightarrow> (1, dlen, ulen, flag, typcd, nm, newpath)
                 | None \<Rightarrow> (0, dlen, ulen, flag, typcd, nm, path_join path nm))])"
  using assms by (simp add: Let_def split: option.splits)

lemma repacker_loop_agree:
  "\<forall>k \<in> toc_names env content pkg_start entries. items1 k = items2 k \<Longrightarrow>
     map_sum id (\<lambda>(fs', it, l). (fs', l)) (repacker_loop env content pkg_start path entries fs items1 ltoc)
       = map_sum id (\<lambda>(fs', it, l). (fs', l)) (repacker_loop env content pkg_start path entries fs items2 ltoc)"
proof (induction entries arbitrary: fs items1 items2 ltoc)
  case Nil
  then show ?case by simp
next
  case (Cons entry rest)
  obtain dpos dlen ulen flag typcd nm where entry: "entry = (dpos, dlen, ulen, flag, typcd, nm)"
    by (cases entry rule: prod_cases6)
  define p where "p = path_join path nm"
  define stored where "stored = take dlen (drop (pkg_start + dpos) content)"
  have rest: "\<forall>k \<in> toc_names env content pkg_start rest. items1 k = items2 k"
    using Cons.prems entry by simp
  have nm: "items1 nm = items2 nm"
    using Cons.prems entry by simp
  show ?case
  proof (cases "pyz_entry nm typcd")
    case False
    from Cons.IH [OF rest] show ?thesis
      unfolding entry repacker_loop_step_other [OF False] nm .
  next
    case True
    have inner: "\<forall>k \<in> inner_names env stored. items1 k = items2 k"
      using Cons.prems entry True by (simp add: stored_def)
    have stored_file: "(fs(p \<mapsto> stored)) p = Some stored" by simp
    note agree = repack_pyz_agree [where fs = "fs(p \<mapsto> stored)" and p = p, OF inner stored_file]
    show ?thesis
    proof (cases "repack_pyz env p items1 (fs(p \<mapsto> stored))")
      case (Inl e)
      with agree have "repack_pyz env p items2 (fs(p \<mapsto> stored)) = Inl e"
        by (cases "repack_pyz env p items2 (fs(p \<mapsto> stored))") auto
      with Inl show ?thesis
        unfolding entry repacker_loop_step_pyz [OF True] p_def [symmetric] stored_def [symmetric]
        by simp
    next
      case (Inr res)
      obtain u it1 fs2 where res: "res = (u, it1, fs2)" by (cases res)
      with Inr agree obtain it2 where r2: "repack_pyz env p items2 (fs(p \<mapsto> stored)) = Inr (u, it2, fs2)"
        by (cases "repack_pyz env p items2 (fs(p \<mapsto> stored))") auto
      have it1: "it1 = items1 |` (- inner_names env stored)"
        using repack_pyz_items [where fs = "fs(p \<mapsto> stored)" and p = p, OF Inr [unfolded res] stored_file] .
      have it2: "it2 = items2 |` (- inner_names env stored)"
        using repack_pyz_items [where fs = "fs(p \<mapsto> stored)" and p = p, OF r2 stored_file] .
      have "\<forall>k \<in> toc_names env content pkg_start rest. it1 k = it2 k"
        using rest by (simp add: it1 it2 restrict_map_def)
      from Cons.IH [OF this] show ?thesis
        unfolding entry repacker_loop_step_pyz [OF True] p_def [symmetric] stored_def [symmetric]
        using Inr res r2 by simp
    qed
  qed
qed

lemma repacker_loop_fs_other:
  "repacker_loop env content pkg_start path entries fs items ltoc = Inr (fs1, items1, ltoc1) \<Longrightarrow>
   p \<notin> entry_path path ` set entries \<Longrightarrow> fs1 p = fs p"
proof (induction entries arbitrary: fs items ltoc)
  case Nil
  then show ?case by simp
next
  case (Cons entry rest)
  obtain dpos dlen ulen flag typcd nm where entry: "entry = (dpos, dlen, ulen, flag, typcd, nm)"
    by (cases entry rule: prod_cases6)
  have p: "p \<noteq> path_join path nm" and prest: "p \<notin> entry_path path ` set rest"
    using Cons.prems(2) entry by (auto simp: entry_path_def)
  show ?case
  proof (cases "pyz_entry nm typcd")
    case False
    from Cons.prems(1) have "repacker_loop env content pkg_start path rest
       (fs(path_join path nm \<mapsto> take dlen (drop (pkg_start + dpos) content))) items
       (ltoc @ [(case items nm of
                   Some newpath \<Rightarrow> (1, dlen, ulen, flag, typcd, nm, newpath)
                 | None \<Rightarrow> (0, dlen, ulen, flag, typcd, nm, path_join path nm))]) = Inr (fs1, items1, ltoc1)"
      unfolding entry repacker_loop_step_other [OF False] .
    from Cons.IH [OF this prest] p show ?thesis by simp
  next
    case True
    from Cons.prems(1) obtain u it fs2 where
      pyz: "repack_pyz env (path_join path nm) items
             (fs(path_join path nm \<mapsto> take dlen (drop (pkg_start + dpos) content))) = Inr (u, it, fs2)"
      and loop: "repacker_loop env content pkg_start path rest fs2 it
            (ltoc @ [(u, dlen, ulen, flag, typcd, nm, path_join path nm)]) = Inr (fs1, items1, ltoc1)"
      unfolding entry repacker_loop_step_pyz [OF True]
      by (auto split: sum.splits)
    from repack_pyz_fs [OF pyz] p have "fs2 p = fs p" by auto
    with Cons.IH [OF loop prest] show ?thesis by simp
  qed
qed

lemma repacker_agree:
  assumes "\<forall>k \<in> archive_names env fs executable. items1 k = items2 k"
  shows "repacker env executable items1 fs = repacker env executable items2 fs"
proof (cases "fs executable")
  case None
  then show ?thesis by (simp add: repacker_def split: prod.splits)
next
  case (Some content)
  show ?thesis
  proof (cases "CArchiveReader env content")
    case (Inl e)
    with Some show ?thesis by (simp add: repacker_def split: prod.splits)
  next
    case (Inr res)
    obtain pkg_start arch_toc where res: "res = (pkg_start, arch_toc)" by (cases res)
    from assms Some Inr res
    have "\<forall>k \<in> toc_names env content pkg_start arch_toc. items1 k = items2 k"
      by (simp add: archive_names_def)
    from repacker_loop_agree [OF this]
    have agree: "map_sum id (\<lambda>(fs', it, l). (fs', l))
         (repacker_loop env content pkg_start path arch_toc fs items1 [])
       = map_sum id (\<lambda>(fs', it, l). (fs', l))
         (repacker_loop env content pkg_start path arch_toc fs items2 [])" for path .
    have "(case repacker_loop env content pkg_start path arch_toc fs items1 [] of
             Inl e \<Rightarrow> Inl e | Inr (fs1, it, l) \<Rightarrow> k fs1 l)
        = (case repacker_loop env content pkg_start path arch_toc fs items2 [] of
             Inl e \<Rightarrow> Inl e | Inr (fs1, it, l) \<Rightarrow> k fs1 l)"
      for path and k :: "filesystem \<Rightarrow> logic_entry list \<Rightarrow> error + (filesystem \<times> string list list)"
      using agree [of path]
      by (cases "repacker_loop env content pkg_start path arch_toc fs items1 []";
          cases "repacker_loop env content pkg_start path arch_toc fs items2 []") auto
    then show ?thesis
      using Some Inr res by (simp add: repacker_def Let_def split: prod.splits)
  qed
qed

lemma repacker_loop_added:
  "repacker_loop env content pkg_start path entries fs items ltoc = Inr (fs', items', ltoc') \<Longrightarrow>
   \<exists>added. ltoc' = ltoc @ added \<and> length added = length entries \<and>
     dom items' \<subseteq> dom items \<and>
     (\<forall>e \<in> set added. case e of (patched', dlen', ulen', flag', typcd', nm', pathnm') \<Rightarrow>
        nm' \<notin> dom items \<and> \<not> pyz_entry nm' typcd' \<longrightarrow>
          patched' = 0 \<and> pathnm' = path_join path nm')"
proof (induction entries arbitrary: fs items ltoc)
  case Nil
  then show ?case by simp
next
  case (Cons entry rest)
  obtain dpos dlen ulen flag typcd nm where entry: "entry = (dpos, dlen, ulen, flag, typcd, nm)"
    by (cases entry rule: prod_cases6)
  show ?case
  proof (cases "pyz_entry nm typcd")
    case False
    define e0 where "e0 = (case items nm of
                   Some newpath \<Rightarrow> (1::nat, dlen, ulen, flag, typcd, nm, newpath)
                 | None \<Rightarrow> (0, dlen, ulen, flag, typcd, nm, path_join path nm))"
    from Cons.prems have "repacker_loop env content pkg_start path rest
       (fs(path_join path nm \<mapsto> take dlen (drop (pkg_start + dpos) content))) items
       (ltoc @ [e0]) = Inr (fs', items', ltoc')"
      unfolding entry repacker_loop_step_other [OF False] e0_def .
    from Cons.IH [OF this] obtain added where
      added: "ltoc' = (ltoc @ [e0]) @ added" "length added = length rest" "dom items' \<subseteq> dom items"
        "\<forall>e \<in> set added. case e of (patched', dlen', ulen', flag', typcd', nm', pathnm') \<Rightarrow>
          nm' \<notin> dom items \<and> \<not> pyz_entry nm' typcd' \<longrightarrow>
            patched' = 0 \<and> pathnm' = path_join path nm'"
      by blast
    have "case e0 of (patched', dlen', ulen', flag', typcd', nm', pathnm') \<Rightarrow>
          nm' \<notin> dom items \<and> \<not> pyz_entry nm' typcd' \<longrightarrow>
            patched' = 0 \<and> pathnm' = path_join path nm'"
      by (auto simp: e0_def split: option.splits)
    with added show ?thesis
      by (intro exI [of _ "e0 # added"]) simp
  next
    case True
    define stored where "stored = take dlen (drop (pkg_start + dpos) content)"
    from Cons.prems obtain u it fs2 where
      pyz: "repack_pyz env (path_join path nm) items (fs(path_join path nm \<mapsto> stored)) = Inr (u, it, fs2)"
      and loop: "repacker_loop env content pkg_start path rest fs2 it
            (ltoc @ [(u, dlen, ulen, flag, typcd, nm, path_join path nm)]) = Inr (fs', items', ltoc')"
      unfolding entry repacker_loop_step_pyz [OF True] stored_def
      by (auto split: sum.splits)
    have it: "it = items |` (- inner_names env stored)"
      by (rule repack_pyz_items [where fs = "fs(path_join path nm \<mapsto> stored)" and p = "path_join path nm", OF pyz]) simp
    then have sub: "dom it \<subseteq> dom items" by auto
    from Cons.IH [OF loop] obtain added where
      added: "ltoc' = (ltoc @ [(u, dlen, ulen, flag, typcd, nm, path_join path nm)]) @ added"
        "length added = length rest" "dom items' \<subseteq> dom it"
        "\<forall>e \<in> set added. case e of (patched', dlen', ulen', flag', typcd', nm', pathnm') \<Rightarrow>
          nm' \<notin> dom it \<and> \<not> pyz_entry nm' typcd' \<longrightarrow>
            patched' = 0 \<and> pathnm' = path_join path nm'"
      by blast
    from added(4) sub have "\<forall>e \<in> set added. case e of (patched', dlen', ulen', flag', typcd', nm', pathnm') \<Rightarrow>
          nm' \<notin> dom items \<and> \<not> pyz_entry nm' typcd' \<longrightarrow>
            patched' = 0 \<and> pathnm' = path_join path nm'"
      by fastforce
    with added sub True show ?thesis
      by (intro exI [of _ "(u, dlen, ulen, flag, typcd, nm, path_join path nm) # added"]) auto
  qed
qed

subsection \<open>Runs with an empty patch set\<close>

lemma pyz_loop_unmatched_fs:
  "\<forall>k \<in> set names. items k = None \<Longrightarrow>
     pyz_loop env fs arch names items u cd lt = pyz_loop env fs2 arch names items u cd lt"
proof (induction names arbitrary: u cd lt)
  case Nil
  then show ?case by simp
next
  case (Cons name rest)
  have none: "items name = None" and rest: "\<forall>k \<in> set rest. items k = None"
    using Cons.prems by simp_all
  show ?case
  proof (cases "pyz_extract env arch name")
    case (Inl e)
    then show ?thesis by simp
  next
    case (Inr res)
    obtain ty obj where res: "res = (ty, obj)" by (cases res)
    define lt' where "lt' = lt @ [(name, if ty = PYZ_TYPE_PKG env then ''__init__.py'' else name, ''PYMODULE'')]"
    have step: "pyz_loop env f arch (name # rest) items u cd lt
        = pyz_loop env f arch rest items u (cd(name \<mapsto> obj)) lt'" for f
      using none Inr res by (simp add: lt'_def)
    from Cons.IH [OF rest, of u "cd(name \<mapsto> obj)" lt'] show ?thesis
      by (simp only: step)
  qed
qed

lemma repack_pyz_empty:
  assumes "repack_pyz env p Map.empty fs = Inr (u, it, fs')" and "fs p = Some stored"
  shows "\<exists>written. fs' = fs(p \<mapsto> written) \<and> u = 0 \<and> it = Map.empty \<and>
           repack_pyz env p Map.empty [p \<mapsto> stored] = Inr (0, Map.empty, [p \<mapsto> written])"
proof -
  have u: "u = 0"
    using repack_pyz_updated [OF assms] by simp
  have it: "it = Map.empty"
    using repack_pyz_items [OF assms] by simp
  from assms obtain names cd lt written where
    magic: "checkmagic env stored 0 p = Inr (projr (checkmagic env stored 0 p))"
    and names: "pyz_loadtoc env stored = Inr names"
    and loop: "pyz_loop env fs stored names Map.empty 0 Map.empty [] = Inr (it, u, cd, lt)"
    and written: "ZlibArchiveWriter env lt cd = Inr written"
    and fs': "fs' = fs(p \<mapsto> written)"
    by (auto simp: repack_pyz_def ZlibArchive_def split: sum.splits)
  have "pyz_loop env [p \<mapsto> stored] stored names Map.empty 0 Map.empty []
      = pyz_loop env fs stored names Map.empty 0 Map.empty []"
    by (rule pyz_loop_unmatched_fs) simp
  with loop have loop': "pyz_loop env [p \<mapsto> stored] stored names Map.empty 0 Map.empty []
      = Inr (Map.empty, 0, cd, lt)"
    using u it by simp
  have "repack_pyz env p Map.empty [p \<mapsto> stored] = Inr (0, Map.empty, [p \<mapsto> written])"
    using magic names loop' written
    by (cases "checkmagic env stored 0 p") (simp_all add: repack_pyz_def ZlibArchive_def)
  with fs' u it show ?thesis by blast
qed

lemma repacker_loop_empty:
  "repacker_loop env content pkg_start path entries fs Map.empty ltoc = Inr (fs1, items1, ltoc1) \<Longrightarrow>
     items1 = Map.empty \<and>
     ltoc1 = ltoc @ map (\<lambda>e. case e of (dpos, dlen, ulen, flag, typcd, nm) \<Rightarrow>
                            (0, dlen, ulen, flag, typcd, nm, path_join path nm)) entries"
proof (induction entries arbitrary: fs ltoc)
  case Nil
  then show ?case by simp
next
  case (Cons entry rest)
  obtain dpos dlen ulen flag typcd nm where entry: "entry = (dpos, dlen, ulen, flag, typcd, nm)"
    by (cases entry rule: prod_cases6)
  define p where "p = path_join path nm"
  define stored where "stored = take dlen (drop (pkg_start + dpos) content)"
  show ?case
  proof (cases "pyz_entry nm typcd")
    case False
    from Cons.prems have "repacker_loop env content pkg_start path rest (fs(p \<mapsto> stored)) Map.empty
       (ltoc @ [(0, dlen, ulen, flag, typcd, nm, p)]) = Inr (fs1, items1, ltoc1)"
      unfolding entry repacker_loop_step_other [OF False] p_def stored_def by simp
    from Cons.IH [OF this] show ?thesis
      by (simp add: entry p_def)
  next
    case True
    from Cons.prems obtain u it fs2 where
      pyz: "repack_pyz env p Map.empty (fs(p \<mapsto> stored)) = Inr (u, it, fs2)"
      and loop: "repacker_loop env content pkg_start path rest fs2 it
            (ltoc @ [(u, dlen, ulen, flag, typcd, nm, p)]) = Inr (fs1, items1, ltoc1)"
      unfolding entry repacker_loop_step_pyz [OF True] stored_def p_def
      by (auto split: sum.splits)
    have "(fs(p \<mapsto> stored)) p = Some stored" by simp
    from repack_pyz_empty [where fs = "fs(p \<mapsto> stored)" and p = p, OF pyz this]
    have "u = 0" "it = Map.empty" by auto
    with Cons.IH [of fs2 "ltoc @ [(0, dlen, ulen, flag, typcd, nm, p)]"] loop
    show ?thesis
      by (simp add: entry p_def)
  qed
qed

lemma repacker_loop_empty_files:
  "repacker_loop env content pkg_start path entries fs Map.empty ltoc = Inr (fs1, items1, ltoc1) \<Longrightarrow>
   distinct (map (entry_path path) entries) \<Longrightarrow>
   \<forall>e \<in> set entries. case e of (dpos, dlen, ulen, flag, typcd, nm) \<Rightarrow>
     (if pyz_entry nm typcd
      then \<exists>written. fs1 (path_join path nm) = Some written \<and>
             repack_pyz env (path_join path nm) Map.empty
                 [path_join path nm \<mapsto> take dlen (drop (pkg_start + dpos) content)]
               = Inr (0, Map.empty, [path_join path nm \<mapsto> written])
      else fs1 (path_join path nm) = Some (take dlen (drop (pkg_start + dpos) content)))"
proof (induction entries arbitrary: fs ltoc)
  case Nil
  then show ?case by simp
next
  case (Cons entry rest)
  obtain dpos dlen ulen flag typcd nm where entry: "entry = (dpos, dlen, ulen, flag, typcd, nm)"
    by (cases entry rule: prod_cases6)
  define p where "p = path_join path nm"
  define stored where "stored = take dlen (drop (pkg_start + dpos) content)"
  have "entry_path path entry = p"
    by (simp add: entry entry_path_def p_def)
  then have fresh: "p \<notin> entry_path path ` set rest" and drest: "distinct (map (entry_path path) rest)"
    using Cons.prems(2) by auto
  show ?case
  proof (cases "pyz_entry nm typcd")
    case False
    from Cons.prems(1) have loop: "repacker_loop env content pkg_start path rest (fs(p \<mapsto> stored)) Map.empty
       (ltoc @ [(0, dlen, ulen, flag, typcd, nm, p)]) = Inr (fs1, items1, ltoc1)"
      unfolding entry repacker_loop_step_other [OF False] p_def stored_def by simp
    from repacker_loop_fs_other [OF loop fresh] have "fs1 p = Some stored" by simp
    with Cons.IH [OF loop drest] False show ?thesis
      by (simp add: entry p_def stored_def)
  next
    case True
    from Cons.prems(1) obtain u it fs2 where
      pyz: "repack_pyz env p Map.empty (fs(p \<mapsto> stored)) = Inr (u, it, fs2)"
      and loop: "repacker_loop env content pkg_start path rest fs2 it
            (ltoc @ [(u, dlen, ulen, flag, typcd, nm, p)]) = Inr (fs1, items1, ltoc1)"
      unfolding entry repacker_loop_step_pyz [OF True] stored_def p_def
      by (auto split: sum.splits)
    have "(fs(p \<mapsto> stored)) p = Some stored" by simp
    from repack_pyz_empty [where fs = "fs(p \<mapsto> stored)" and p = p, OF pyz this]
    obtain written where w: "fs2 = fs(p \<mapsto> stored, p \<mapsto> written)" "it = Map.empty"
      "repack_pyz env p Map.empty [p \<mapsto> stored] = Inr (0, Map.empty, [p \<mapsto> written])"
      by auto
    from repacker_loop_fs_other [OF loop fresh] w(1) have "fs1 p = Some written" by simp
    with Cons.IH [OF loop [unfolded w(2)] drest] True w(3) show ?thesis
      by (simp add: entry p_def stored_def)
  qed
qed

subsection \<open>The writer on unpatched entries\<close>

lemma add_unpatched:
  "add env fs w (0, dlen, ulen, flag, typcd, nm, pathnm) =
     (case fs pathnm of
        None \<Rightarrow> Inl (IOError pathnm)
      | Some filedata \<Rightarrow>
          Inr (fs, \<lparr>lib = lib w @ filedata,
                    toc = toc w @ [(length (lib w), length filedata, ulen, flag, typcd, normpath nm)]\<rparr>))"
  by (simp split: option.splits)

lemma add_entries_unpatched:
  "add_entries env fs w (map (\<lambda>e. case e of (dpos, dlen, ulen, flag, typcd, nm) \<Rightarrow>
                            (0, dlen, ulen, flag, typcd, nm, path_join path nm)) entries) = Inr (fs', w') \<Longrightarrow>
   \<exists>ext new. lib w' = lib w @ ext \<and> toc w' = toc w @ new \<and>
     list_all2 (\<lambda>old new. case old of (dpos, dlen, ulen, flag, typcd, nm) \<Rightarrow>
                  case new of (dpos', dlen', ulen', flag', typcd', nm') \<Rightarrow>
                    nm' = normpath nm \<and> typcd' = typcd \<and> flag' = flag \<and> ulen' = ulen \<and>
                    fs (path_join path nm) = Some (take dlen' (drop dpos' (lib w'))))
       entries new"
proof (induction entries arbitrary: w)
  case Nil
  then show ?case by simp
next
  case (Cons entry rest)
  obtain dpos dlen ulen flag typcd nm where entry: "entry = (dpos, dlen, ulen, flag, typcd, nm)"
    by (cases entry rule: prod_cases6)
  from Cons.prems obtain filedata where
    filedata: "fs (path_join path nm) = Some filedata"
    and run: "add_entries env fs
        \<lparr>lib = lib w @ filedata,
         toc = toc w @ [(length (lib w), length filedata, ulen, flag, typcd, normpath nm)]\<rparr>
        (map (\<lambda>e. case e of (dpos, dlen, ulen, flag, typcd, nm) \<Rightarrow>
                            (0, dlen, ulen, flag, typcd, nm, path_join path nm)) rest) = Inr (fs', w')"
    by (auto simp: entry add_unpatched simp del: add.simps split: option.splits)
  from Cons.IH [OF run] obtain ext new where
    ext: "lib w' = (lib w @ filedata) @ ext"
    and new: "toc w' = (toc w @ [(length (lib w), length filedata, ulen, flag, typcd, normpath nm)]) @ new"
    and all: "list_all2 (\<lambda>old new. case old of (dpos, dlen, ulen, flag, typcd, nm) \<Rightarrow>
                  case new of (dpos', dlen', ulen', flag', typcd', nm') \<Rightarrow>
                    nm' = normpath nm \<and> typcd' = typcd \<and> flag' = flag \<and> ulen' = ulen \<and>
                    fs (path_join path nm) = Some (take dlen' (drop dpos' (lib w'))))
       rest new"
    by auto
  have "take (length filedata) (drop (length (lib w)) (lib w')) = filedata"
    by (simp add: ext)
  with filedata all show ?case
    by (intro exI [of _ "filedata @ ext"]
          exI [of _ "(length (lib w), length filedata, ulen, flag, typcd, normpath nm) # new"])
       (simp add: ext new entry)
qed

lemma add_fs_other:
  assumes "add env fs w entry = Inr (fs', w')" and "p \<noteq> entry_source entry"
  shows "fs' p = fs p"
proof -
  obtain patched dlen ulen flag typcd nm pathnm where
    entry: "entry = (patched, dlen, ulen, flag, typcd, nm, pathnm)"
    by (cases entry rule: prod_cases7)
  from assms show ?thesis
    by (auto simp: entry entry_source_def Let_def split: if_splits option.splits sum.splits)
qed

lemma add_entries_fs_other:
  "add_entries env fs w entries = Inr (fs', w') \<Longrightarrow> p \<notin> entry_source ` set entries \<Longrightarrow> fs' p = fs p"
proof (induction entries arbitrary: fs w)
  case Nil
  then show ?case by simp
next
  case (Cons entry rest)
  from Cons.prems(1) obtain fs1 w1 where
    head: "add env fs w entry = Inr (fs1, w1)"
    and tail: "add_entries env fs1 w1 rest = Inr (fs', w')"
    by (auto split: sum.splits)
  from Cons.prems(2) have "p \<noteq> entry_source entry" "p \<notin> entry_source ` set rest"
    by auto
  with add_fs_other [OF head] Cons.IH [OF tail] show ?case by simp
qed

subsection \<open>The example bundle\<close>

lemmas demo_defs = demo_env_def demo_exe_def demo_toc_def demo_files_def demo_pyz_def
lemmas path_defs = normpath_def sep_def startswith_def endswith_def Let_def
lemmas run_defs = pyz_entry_def endswith_def startswith_def path_join_def repack_pyz_def
  ZlibArchive_def checkmagic_def compile_code_def Let_def

lemma demo_loop:
  "repacker_loop demo_env demo_exe 2 ''app_extracted'' demo_toc demo_files Map.empty []
     = Inr (demo_extracted, Map.empty, demo_logic_toc)"
  by (simp add: demo_env_def demo_exe_def demo_toc_def demo_pyz_def demo_rewritten_def
      demo_extracted_def demo_logic_toc_def run_defs)

lemma demo_written:
  "add_entries demo_env (demo_copied(''app_extracted/PKG-patched'' \<mapsto> [])) \<lparr>lib = [], toc = []\<rparr>
      demo_logic_toc
     = Inr (demo_copied(''app_extracted/PKG-patched'' \<mapsto> []), demo_writer)"
  by (simp add: demo_env_def demo_copied_def demo_extracted_def demo_logic_toc_def demo_writer_def
      demo_rewritten_def path_defs)

lemma demo_info: "get_carchive_info demo_env demo_copied ''app-patched.exe'' = Inr (2, ''libpython'')"
  by (simp add: get_carchive_info_def PYINST_COOKIE_SIZE_def unpack_i_def demo_copied_def
      demo_env_def demo_exe_def demo_pyz_def)

lemma demo_package:
  "CArchiveWriter2 demo_env demo_copied ''app_extracted/PKG-patched'' demo_logic_toc ''libpython''
     = Inr (demo_copied(''app_extracted/PKG-patched'' \<mapsto> demo_pkg))"
  unfolding CArchiveWriter2_def demo_written
  by (simp add: demo_writer_def demo_pkg_def demo_env_def demo_rewritten_def)

lemma demo_spliced:
  "repack_exe_spliced demo_env ''app_extracted'' ''app-patched.exe'' demo_logic_toc demo_copied
     = Inr (demo_copied(''app_extracted/PKG-patched'' \<mapsto> demo_pkg,
                         ''app-patched.exe'' \<mapsto> [0xAA, 0xBB] @ demo_pkg), [])"
proof -
  have name: "path_join ''app_extracted'' ''PKG-patched'' = ''app_extracted/PKG-patched''"
    by (simp add: path_join_def startswith_def endswith_def)
  have linux: "\<not> is_linux demo_env"
    by (simp add: demo_env_def)
  have old: "demo_copied ''app-patched.exe'' = Some demo_exe"
    by (simp add: demo_copied_def)
  have upd: "update_pkg demo_exe 2 demo_pkg = Inr ([0xAA, 0xBB] @ demo_pkg)"
    by (simp add: update_pkg_def demo_exe_def)
  show ?thesis
    unfolding repack_exe_spliced_def demo_info name
    by (simp add: demo_package linux old upd)
qed

section \<open>Lemmas about the resolver and the command line\<close>

lemmas resolver_defs = item_of_def str_find_def pathsep_def sep_def normpath_def startswith_def
  endswith_def slice_from_def index_def drop_suffix_def str_strip_def Let_def

lemma build_updated_items_never_returns_items:
  "build_updated_items files strip \<noteq> Inr (Some items)"
  by (simp add: build_updated_items_def split: sum.splits)

lemma main_with_file_raises:
  "snd (main env debug strip [executable, file] fs) \<noteq> Inr r"
  by (auto simp: main_def build_updated_items_def split: sum.splits)

text \<open>
  With an integer \<open>strip\<close> the whole remainder of the path is joined, and \<open>.py\<close> is
  dropped before \<open>__init__.py\<close> is tried, so the name of a package file keeps
  \<open>__init__\<close>.
\<close>

lemma package_init_suffix_is_kept:
  "map_sum id fst (item_of ''reader/__init__.py'' (Some 0)) = Inr ''reader.__init__''"
  "map_sum id fst (item_of ''../../reader/__init__.py'' (Some 2)) = Inr ''reader.__init__''"
  by (simp_all add: resolver_defs)

lemma main_lists_without_files:
  "main env debug strip [executable] fs
     = (\<not> debug, case print_archive_items env executable fs of
                    Inl e \<Rightarrow> Inl e
                  | Inr (fs', logs) \<Rightarrow> Inr (Listed fs' logs))"
  by (simp add: main_def)

text \<open>
  The test of the hook has its arguments the wrong way round: for an exception whose first
  argument is a message or a number it raises \<open>TypeError\<close>, and \<open>logger.error\<close> is
  not reached. Every exception of the model is of that kind.
\<close>

lemma isinstance_str_error:
  "isinstance_str a = Inl e \<Longrightarrow> e = TypeError"
  "isinstance_str_any xs = Inl e \<Longrightarrow> e = TypeError"
  by (induction a and xs rule: isinstance_str_isinstance_str_any.induct)
     (auto split: sum.splits bool.splits)

lemma excepthook_status:
  "excepthook e args = (reports, SystemExit n) \<Longrightarrow> n = 1"
  by (auto simp: excepthook_def split: list.splits sum.splits bool.splits
      dest: isinstance_str_error(1))

lemma excepthook_raises_on_message:
  "excepthook e (PStr msg # rest) = ([], TypeError)"
  "excepthook e (PInt n # rest) = ([], TypeError)"
  "excepthook e [] = ([], IndexError)"
  by (simp_all add: excepthook_def)

lemma excepthook_raises_on_model_errors:
  "excepthook e (args_of e) = ([], TypeError)"
  by (cases e) (simp_all add: excepthook_def)

lemma parse_positionals_error:
  "parse_positionals positionals = Inl e \<Longrightarrow> e = SystemExit 2"
  by (cases positionals rule: parse_positionals.cases) simp_all

lemma main_hook:
  assumes "snd (main env debug strip positionals fs) = Inl e" and "\<forall>n. e \<noteq> SystemExit n"
  shows "fst (main env debug strip positionals fs) = (\<not> debug)"
proof (cases "parse_positionals positionals")
  case (Inl e')
  with assms(1) have "e = e'" by (simp add: main_def)
  with parse_positionals_error [OF Inl] assms(2) show ?thesis by simp
next
  case (Inr parsed)
  then show ?thesis by (simp add: main_def split: prod.splits)
qed

lemma finish_error:
  assumes "\<forall>n. e \<noteq> SystemExit n"
  shows "finish (hook, Inl e) =
     (if hook
      then (case excepthook e (args_of e) of
              (reports, SystemExit n) \<Rightarrow> (n, Hook, reports)
            | (reports, e') \<Rightarrow> (1, HookFailed e', reports))
      else (1, DefaultTraceback, []))"
  using assms by (cases e) simp_all

section \<open>The writer compresses patched entries only\<close>

text \<open>
  C6 (as amended). For every entry that \<open>add\<close> handles, the bytes appended at the write
  cursor are the payload deflated at the level \<open>LEVEL\<close> exactly when the flag is 1 and
  the entry is patched; in every other case (flag clear, or entry not patched) the payload
  is appended as it is. The payload is the marshalled code compiled from the file for a
  patched entry of type s or M, and the bytes of the file otherwise.
\<close>

theorem add_compresses_only_patched:
  assumes "add env fs w (patched, dlen, ulen, flag, typcd, nm, pathnm) = Inr (fs', w')"
  shows "\<exists>filedata0 filedata.
           fs' pathnm = Some filedata0 \<and>
           (if patched \<noteq> 0 \<and> (typcd = ''s'' \<or> typcd = ''M'')
            then \<exists>code. py_compile env filedata0 (''<'' @ nm @ ''>'') = Inr code \<and>
                        filedata = marshal_dumps env code
            else filedata = filedata0) \<and>
           lib w' = lib w @ (if flag = 1 \<and> patched \<noteq> 0
                             then zlib_compress env (LEVEL env) filedata
                             else filedata)"
  using assms
  by (auto simp: Let_def split: if_splits option.splits sum.splits)

theorem add_compresses_only_patched_witness:
  "add demo_env demo_files empty_writer (1, 3, 3, 1, ''s'', ''main'', ''new.py'')
     = Inr (demo_files, \<lparr>lib = [0x78, 0xDA, 0x63, 7, 8], toc = [(0, 5, 3, 1, ''s'', ''main'')]\<rparr>)
   \<and> (\<exists>filedata0 filedata.
           demo_files ''new.py'' = Some filedata0 \<and>
           (if (1::nat) \<noteq> 0 \<and> (''s'' = ''s'' \<or> ''s'' = ''M'')
            then \<exists>code. py_compile demo_env filedata0 (''<'' @ ''main'' @ ''>'') = Inr code \<and>
                        filedata = marshal_dumps demo_env code
            else filedata = filedata0) \<and>
           lib \<lparr>lib = [0x78, 0xDA, 0x63, 7, 8], toc = [(0, 5, 3, 1, ''s'', ''main'')]\<rparr>
             = lib empty_writer @ (if (1::nat) = 1 \<and> (1::nat) \<noteq> 0
                             then zlib_compress demo_env (LEVEL demo_env) filedata
                             else filedata))"
proof -
  have run: "add demo_env demo_files empty_writer (1, 3, 3, 1, ''s'', ''main'', ''new.py'')
     = Inr (demo_files, \<lparr>lib = [0x78, 0xDA, 0x63, 7, 8], toc = [(0, 5, 3, 1, ''s'', ''main'')]\<rparr>)"
    by (simp add: demo_env_def demo_files_def empty_writer_def path_defs)
  from add_compresses_only_patched [OF run] run show ?thesis by blast
qed

text \<open>
  The claim as written fails for an entry that is not patched: with the flag set, the
  extracted file \<open>work/data\<close> is appended byte for byte, not deflated again.
\<close>

theorem add_flag_set_unpatched_counterexample:
  "map_sum id (lib \<circ> snd)
       (add demo_env demo_files empty_writer (0, 3, 3, 1, ''x'', ''data'', ''work/data''))
     = Inr [1, 2, 3]
   \<and> demo_files ''work/data'' = Some [1, 2, 3]
   \<and> zlib_compress demo_env (LEVEL demo_env) [1, 2, 3] \<noteq> [1, 2, 3]"
  by (simp add: demo_env_def demo_files_def empty_writer_def path_defs)

section \<open>Round trip with an empty patch set\<close>

text \<open>
  C1 (as amended). Take an archive for which the executable, the output, the package file
  and the working files of the entries are separate files, each given by a relative path
  in normal form. Extracting it and repacking it with an empty patch set gives every
  entry, in the old order, its old type code, flag and uncompressed length, under the
  normalised form of its old name. An entry that is not a
  nested PYZ container is written with exactly the bytes stored for it in the original, so
  its decompressed payload is the original one. A PYZ entry is written with the bytes of
  the PYZ file that \<open>repack_pyz\<close> rebuilt from the stored one, which need not be the
  stored bytes.
\<close>

theorem roundtrip_empty_patch_set:
  assumes loop: "repacker_loop env content pkg_start path arch_toc fs Map.empty [] = Inr (fs1, items1, logic_toc)"
    and apart: "separate_files fs (executable # output # pkgname # map (entry_path path) arch_toc)"
    and written: "add_entries env ((fs1(output \<mapsto> copied))(pkgname \<mapsto> [])) \<lparr>lib = [], toc = []\<rparr> logic_toc
                    = Inr (fs2, w)"
  shows "list_all2 (\<lambda>old new. case old of (dpos, dlen, ulen, flag, typcd, nm) \<Rightarrow>
                  case new of (dpos', dlen', ulen', flag', typcd', nm') \<Rightarrow>
                    nm' = normpath nm \<and> typcd' = typcd \<and> flag' = flag \<and> ulen' = ulen \<and>
                    (if pyz_entry nm typcd
                     then repack_pyz env (path_join path nm) Map.empty
                            [path_join path nm \<mapsto> take dlen (drop (pkg_start + dpos) content)]
                          = Inr (0, Map.empty, [path_join path nm \<mapsto> take dlen' (drop dpos' (lib w))])
                     else take dlen' (drop dpos' (lib w)) = take dlen (drop (pkg_start + dpos) content)))
           arch_toc (toc w)"
proof -
  from apart have "distinct (executable # output # pkgname # map (entry_path path) arch_toc)"
    by (simp add: separate_files_def)
  then have paths: "distinct (map (entry_path path) arch_toc)"
    and out_fresh: "output \<notin> entry_path path ` set arch_toc"
    and pkg_fresh: "pkgname \<notin> entry_path path ` set arch_toc"
    by auto
  from repacker_loop_empty [OF loop]
  have ltoc: "logic_toc = map (\<lambda>e. case e of (dpos, dlen, ulen, flag, typcd, nm) \<Rightarrow>
                            (0, dlen, ulen, flag, typcd, nm, path_join path nm)) arch_toc"
    by simp
  from add_entries_unpatched [OF written [unfolded ltoc]] obtain new where
    new: "toc w = new"
    and all: "list_all2 (\<lambda>old new. case old of (dpos, dlen, ulen, flag, typcd, nm) \<Rightarrow>
                  case new of (dpos', dlen', ulen', flag', typcd', nm') \<Rightarrow>
                    nm' = normpath nm \<and> typcd' = typcd \<and> flag' = flag \<and> ulen' = ulen \<and>
                    ((fs1(output \<mapsto> copied))(pkgname \<mapsto> [])) (path_join path nm)
                      = Some (take dlen' (drop dpos' (lib w))))
       arch_toc new"
    by auto
  note files = repacker_loop_empty_files [OF loop paths]
  show ?thesis
    unfolding new list_all2_conv_all_nth
  proof (intro conjI allI impI)
    show "length arch_toc = length new"
      using all by (rule list_all2_lengthD)
  next
    fix i assume i: "i < length arch_toc"
    obtain dpos dlen ulen flag typcd nm where old: "arch_toc ! i = (dpos, dlen, ulen, flag, typcd, nm)"
      by (cases "arch_toc ! i" rule: prod_cases6)
    obtain dpos' dlen' ulen' flag' typcd' nm' where new_i: "new ! i = (dpos', dlen', ulen', flag', typcd', nm')"
      by (cases "new ! i" rule: prod_cases6)
    have mem: "arch_toc ! i \<in> set arch_toc" using i by simp
    then have "entry_path path (arch_toc ! i) \<in> entry_path path ` set arch_toc" by (rule imageI)
    moreover have "entry_path path (arch_toc ! i) = path_join path nm"
      by (simp add: old entry_path_def)
    ultimately have ne: "output \<noteq> path_join path nm" "pkgname \<noteq> path_join path nm"
      using out_fresh pkg_fresh by auto
    from list_all2_nthD [OF all i]
    have kept: "nm' = normpath nm" "typcd' = typcd" "flag' = flag" "ulen' = ulen"
      and slice: "fs1 (path_join path nm) = Some (take dlen' (drop dpos' (lib w)))"
      using ne by (simp_all add: old new_i)
    from files mem have "if pyz_entry nm typcd
      then \<exists>written. fs1 (path_join path nm) = Some written \<and>
             repack_pyz env (path_join path nm) Map.empty
                 [path_join path nm \<mapsto> take dlen (drop (pkg_start + dpos) content)]
               = Inr (0, Map.empty, [path_join path nm \<mapsto> written])
      else fs1 (path_join path nm) = Some (take dlen (drop (pkg_start + dpos) content))"
      by (auto simp: old)
    with kept slice
    show "case arch_toc ! i of (dpos, dlen, ulen, flag, typcd, nm) \<Rightarrow>
            case new ! i of (dpos', dlen', ulen', flag', typcd', nm') \<Rightarrow>
              nm' = normpath nm \<and> typcd' = typcd \<and> flag' = flag \<and> ulen' = ulen \<and>
              (if pyz_entry nm typcd
               then repack_pyz env (path_join path nm) Map.empty
                      [path_join path nm \<mapsto> take dlen (drop (pkg_start + dpos) content)]
                    = Inr (0, Map.empty, [path_join path nm \<mapsto> take dlen' (drop dpos' (lib w))])
               else take dlen' (drop dpos' (lib w)) = take dlen (drop (pkg_start + dpos) content))"
      by (auto simp: old new_i split: if_splits)
  qed
qed

theorem roundtrip_empty_patch_set_witness:
  "separate_files demo_files
     (''app.exe'' # ''app-patched.exe'' # ''app_extracted/PKG-patched''
        # map (entry_path ''app_extracted'') demo_toc)
   \<and> list_all2 (\<lambda>old new. case old of (dpos, dlen, ulen, flag, typcd, nm) \<Rightarrow>
                  case new of (dpos', dlen', ulen', flag', typcd', nm') \<Rightarrow>
                    nm' = normpath nm \<and> typcd' = typcd \<and> flag' = flag \<and> ulen' = ulen \<and>
                    (if pyz_entry nm typcd
                     then repack_pyz demo_env (path_join ''app_extracted'' nm) Map.empty
                            [path_join ''app_extracted'' nm \<mapsto> take dlen (drop (2 + dpos) demo_exe)]
                          = Inr (0, Map.empty,
                                 [path_join ''app_extracted'' nm \<mapsto> take dlen' (drop dpos' (lib demo_writer))])
                     else take dlen' (drop dpos' (lib demo_writer)) = take dlen (drop (2 + dpos) demo_exe)))
           demo_toc (toc demo_writer)"
proof -
  have apart: "separate_files demo_files
     (''app.exe'' # ''app-patched.exe'' # ''app_extracted/PKG-patched''
        # map (entry_path ''app_extracted'') demo_toc)"
    by (simp add: separate_files_def plain_path_def demo_toc_def demo_files_def entry_path_def
        path_join_def path_defs)
  from roundtrip_empty_patch_set [OF demo_loop apart demo_written [unfolded demo_copied_def]] apart
  show ?thesis by blast
qed

text \<open>
  The claim as written fails on the example bundle: its PYZ entry, stored uncompressed,
  comes back with the running Python's \<open>pymagic\<close> in its header instead of the bytes
  9 9 9 9 of the original.
\<close>

theorem roundtrip_rewrites_pyz_counterexample:
  "map_sum id (\<lambda>r. fst r ''app_extracted/PKG-patched'') (repacker demo_env ''app.exe'' Map.empty demo_files)
     = Inr (Some ([1, 2, 3] @ [0x50, 0x59, 0x5A, 0, 1, 2, 3, 4, 0, 0, 0, 0, 5, 6]
                    @ replicate 8 0x4D @ [0, 0, 0, 105] @ replicate 76 0))
   \<and> drop 2 demo_exe
     = [1, 2, 3] @ [0x50, 0x59, 0x5A, 0, 9, 9, 9, 9, 0, 0, 0, 0, 5, 6]
         @ replicate 8 0x4D @ [0, 0, 0, 105] @ replicate 76 0
   \<and> CArchiveReader demo_env demo_exe = Inr (2, [(0, 3, 3, 1, ''s'', ''mod''), (3, 14, 14, 0, ''z'', ''lib.pyz'')])"
  by (simp add: repacker_def repack_exe_def repack_exe_spliced_def get_carchive_info_def update_pkg_def
      CArchiveWriter2_def PYINST_COOKIE_SIZE_def unpack_i_def splitext_def basename_def
      demo_defs run_defs)

section \<open>The patched mark of a PYZ entry\<close>

text \<open>
  C5 (as amended). The patched value that the annotated TOC gives to a nested PYZ entry
  is the number of inner entries that were replaced, that is, the number of names of the
  inner TOC found in the patch set. The entry is therefore marked patched exactly when at
  least one inner entry was replaced; when none was, it is left unpatched although the PYZ
  file has been rewritten.
\<close>

theorem pyz_entry_patched_counts_updates:
  assumes "pyz_entry nm typcd"
    and "repacker_loop env content pkg_start path ((dpos, dlen, ulen, flag, typcd, nm) # rest) fs items ltoc
           = Inr (fs', items', ltoc')"
  shows "ltoc' ! length ltoc
           = (card (inner_names env (take dlen (drop (pkg_start + dpos) content)) \<inter> dom items),
              dlen, ulen, flag, typcd, nm, path_join path nm)
         \<and> (card (inner_names env (take dlen (drop (pkg_start + dpos) content)) \<inter> dom items) = 0
              \<longleftrightarrow> inner_names env (take dlen (drop (pkg_start + dpos) content)) \<inter> dom items = {})"
proof -
  define stored where "stored = take dlen (drop (pkg_start + dpos) content)"
  define p where "p = path_join path nm"
  from assms(2) obtain u it fs2 where
    pyz: "repack_pyz env p items (fs(p \<mapsto> stored)) = Inr (u, it, fs2)"
    and loop: "repacker_loop env content pkg_start path rest fs2 it
          (ltoc @ [(u, dlen, ulen, flag, typcd, nm, p)]) = Inr (fs', items', ltoc')"
    unfolding repacker_loop_step_pyz [OF assms(1)] stored_def p_def
    by (auto split: sum.splits)
  have u: "u = card (inner_names env stored \<inter> dom items)"
    by (rule repack_pyz_updated [where fs = "fs(p \<mapsto> stored)" and p = p, OF pyz]) simp
  from repacker_loop_added [OF loop] obtain added where
    "ltoc' = (ltoc @ [(u, dlen, ulen, flag, typcd, nm, p)]) @ added" by blast
  then have "ltoc' ! length ltoc = (u, dlen, ulen, flag, typcd, nm, p)"
    by (simp add: nth_append)
  moreover have "finite (inner_names env stored)"
    by (simp add: inner_names_def split: sum.splits)
  ultimately show ?thesis
    unfolding stored_def [symmetric] p_def [symmetric] u by simp
qed

theorem pyz_entry_patched_counts_updates_witness:
  "pyz_entry ''lib.pyz'' ''z''
   \<and> map_sum id (\<lambda>r. snd (snd r) ! 0)
        (repacker_loop demo_env demo_exe 2 ''app_extracted'' [(3, 14, 14, 0, ''z'', ''lib.pyz'')]
           demo_files [''mod'' \<mapsto> ''new.py''] [])
       = Inr (card (inner_names demo_env (take 14 (drop (2 + 3) demo_exe)) \<inter> dom [''mod'' \<mapsto> ''new.py'']),
              14, 14, 0, ''z'', ''lib.pyz'', ''app_extracted/lib.pyz'')
   \<and> card (inner_names demo_env (take 14 (drop (2 + 3) demo_exe)) \<inter> dom [''mod'' \<mapsto> ''new.py'']) = 1"
proof -
  have pyz: "pyz_entry ''lib.pyz'' ''z''"
    by (simp add: pyz_entry_def endswith_def)
  have "\<exists>r. repacker_loop demo_env demo_exe 2 ''app_extracted'' [(3, 14, 14, 0, ''z'', ''lib.pyz'')]
           demo_files [''mod'' \<mapsto> ''new.py''] [] = Inr r"
    by (simp add: demo_defs run_defs)
  then obtain F I L where run: "repacker_loop demo_env demo_exe 2 ''app_extracted''
      [(3, 14, 14, 0, ''z'', ''lib.pyz'')] demo_files [''mod'' \<mapsto> ''new.py''] [] = Inr (F, I, L)"
    by (metis prod_cases3)
  have names: "inner_names demo_env (take 14 (drop (2 + 3) demo_exe)) = {''mod''}"
    by (simp add: inner_names_def demo_env_def)
  from pyz_entry_patched_counts_updates [OF pyz run] pyz run names
  show ?thesis
    by (simp add: path_join_def startswith_def endswith_def)
qed

text \<open>
  The claim as written fails on the example bundle with an empty patch set: the PYZ file
  in the working directory is the rewritten one, and its outer entry has patched value 0.
\<close>

theorem rewritten_pyz_unpatched_counterexample:
  "map_sum id (snd \<circ> snd)
      (repacker_loop demo_env demo_exe 2 ''app_extracted'' demo_toc demo_files Map.empty [])
     = Inr [(0, 3, 3, 1, ''s'', ''mod'', ''app_extracted/mod''),
            (0, 14, 14, 0, ''z'', ''lib.pyz'', ''app_extracted/lib.pyz'')]
   \<and> map_sum id (\<lambda>r. fst r ''app_extracted/lib.pyz'')
      (repacker_loop demo_env demo_exe 2 ''app_extracted'' demo_toc demo_files Map.empty [])
     = Inr (Some [0x50, 0x59, 0x5A, 0, 1, 2, 3, 4, 0, 0, 0, 0, 5, 6])
   \<and> take 14 (drop (2 + 3) demo_exe) = [0x50, 0x59, 0x5A, 0, 9, 9, 9, 9, 0, 0, 0, 0, 5, 6]"
  by (simp add: demo_defs run_defs)


section \<open>Names replaced inside a PYZ leave the patch set\<close>

text \<open>
  C10 (as amended). When the loop reaches a nested PYZ entry, every name of its inner TOC
  is removed from the shared patch mapping (the matched ones were replaced and popped, the
  others were never in it), and the rest of the run is computed from the reduced mapping.
  So a name replaced inside a container is applied to no entry that comes later in the
  outer TOC: a later outer entry of that name is left unpatched with its own extracted
  file, and the name is absent from the mapping at the end of the loop. An outer match
  does not remove the name, so nothing is said about entries that come before the
  container.
\<close>

theorem replaced_inner_names_leave_patch_set:
  assumes "pyz_entry nm typcd"
    and "repacker_loop env content pkg_start path ((dpos, dlen, ulen, flag, typcd, nm) # rest) fs items ltoc
           = Inr (fs', items', ltoc')"
  shows "\<exists>patched fs2.
           repack_pyz env (path_join path nm) items
               (fs(path_join path nm \<mapsto> take dlen (drop (pkg_start + dpos) content)))
             = Inr (patched, items |` (- inner_names env (take dlen (drop (pkg_start + dpos) content))), fs2)
         \<and> repacker_loop env content pkg_start path rest fs2
               (items |` (- inner_names env (take dlen (drop (pkg_start + dpos) content))))
               (ltoc @ [(patched, dlen, ulen, flag, typcd, nm, path_join path nm)])
             = Inr (fs', items', ltoc')
         \<and> dom items' \<inter> inner_names env (take dlen (drop (pkg_start + dpos) content)) = {}
         \<and> (\<forall>e \<in> set (drop (Suc (length ltoc)) ltoc').
               case e of (patched', dlen', ulen', flag', typcd', nm', pathnm') \<Rightarrow>
                 nm' \<in> inner_names env (take dlen (drop (pkg_start + dpos) content))
                   \<and> \<not> pyz_entry nm' typcd'
                 \<longrightarrow> patched' = 0 \<and> pathnm' = path_join path nm')"
proof -
  define stored where "stored = take dlen (drop (pkg_start + dpos) content)"
  define p where "p = path_join path nm"
  define N where "N = inner_names env stored"
  from assms(2) obtain u it fs2 where
    pyz: "repack_pyz env p items (fs(p \<mapsto> stored)) = Inr (u, it, fs2)"
    and loop: "repacker_loop env content pkg_start path rest fs2 it
          (ltoc @ [(u, dlen, ulen, flag, typcd, nm, p)]) = Inr (fs', items', ltoc')"
    unfolding repacker_loop_step_pyz [OF assms(1)] stored_def p_def
    by (auto split: sum.splits)
  have it: "it = items |` (- N)"
    unfolding N_def
    by (rule repack_pyz_items [where fs = "fs(p \<mapsto> stored)" and p = p, OF pyz]) simp
  from repacker_loop_added [OF loop] obtain added where
    added: "ltoc' = (ltoc @ [(u, dlen, ulen, flag, typcd, nm, p)]) @ added"
      "dom items' \<subseteq> dom it"
      "\<forall>e \<in> set added. case e of (patched', dlen', ulen', flag', typcd', nm', pathnm') \<Rightarrow>
          nm' \<notin> dom it \<and> \<not> pyz_entry nm' typcd' \<longrightarrow>
            patched' = 0 \<and> pathnm' = path_join path nm'"
    by blast
  have later: "drop (Suc (length ltoc)) ltoc' = added"
    using added(1) by simp
  have gone: "dom items' \<inter> N = {}"
    using added(2) it by auto
  have "\<forall>e \<in> set added. case e of (patched', dlen', ulen', flag', typcd', nm', pathnm') \<Rightarrow>
          nm' \<in> N \<and> \<not> pyz_entry nm' typcd' \<longrightarrow>
            patched' = 0 \<and> pathnm' = path_join path nm'"
    using added(3) it by fastforce
  with pyz loop gone later show ?thesis
    unfolding it stored_def [symmetric] p_def [symmetric] N_def [symmetric]
    by blast
qed

theorem replaced_inner_names_leave_patch_set_witness:
  "pyz_entry ''lib.pyz'' ''z''
   \<and> map_sum id (snd \<circ> snd)
        (repacker_loop demo_env demo_exe 2 ''app_extracted''
           [(3, 14, 14, 0, ''z'', ''lib.pyz''), (0, 3, 3, 1, ''s'', ''mod'')]
           demo_files [''mod'' \<mapsto> ''new.py''] [])
       = Inr [(1, 14, 14, 0, ''z'', ''lib.pyz'', ''app_extracted/lib.pyz''),
              (0, 3, 3, 1, ''s'', ''mod'', ''app_extracted/mod'')]
   \<and> map_sum id (\<lambda>r. dom (fst (snd r)) \<inter> inner_names demo_env (take 14 (drop (2 + 3) demo_exe)))
        (repacker_loop demo_env demo_exe 2 ''app_extracted''
           [(3, 14, 14, 0, ''z'', ''lib.pyz''), (0, 3, 3, 1, ''s'', ''mod'')]
           demo_files [''mod'' \<mapsto> ''new.py''] [])
       = Inr {}"
proof -
  have pyz: "pyz_entry ''lib.pyz'' ''z''"
    by (simp add: pyz_entry_def endswith_def)
  have toc: "map_sum id (snd \<circ> snd)
        (repacker_loop demo_env demo_exe 2 ''app_extracted''
           [(3, 14, 14, 0, ''z'', ''lib.pyz''), (0, 3, 3, 1, ''s'', ''mod'')]
           demo_files [''mod'' \<mapsto> ''new.py''] [])
       = Inr [(1, 14, 14, 0, ''z'', ''lib.pyz'', ''app_extracted/lib.pyz''),
              (0, 3, 3, 1, ''s'', ''mod'', ''app_extracted/mod'')]"
    by (simp add: demo_defs run_defs)
  then obtain F I L where run: "repacker_loop demo_env demo_exe 2 ''app_extracted''
      [(3, 14, 14, 0, ''z'', ''lib.pyz''), (0, 3, 3, 1, ''s'', ''mod'')]
      demo_files [''mod'' \<mapsto> ''new.py''] [] = Inr (F, I, L)"
    by (cases "repacker_loop demo_env demo_exe 2 ''app_extracted''
      [(3, 14, 14, 0, ''z'', ''lib.pyz''), (0, 3, 3, 1, ''s'', ''mod'')]
      demo_files [''mod'' \<mapsto> ''new.py''] []") auto
  from replaced_inner_names_leave_patch_set [OF pyz run]
  have "dom I \<inter> inner_names demo_env (take 14 (drop (2 + 3) demo_exe)) = {}"
    by blast
  with pyz toc [unfolded run] show ?thesis
    unfolding run by simp
qed

text \<open>
  The claim as written fails when the outer entry comes first: on the example bundle the
  name \<open>mod\<close> patches the outer script (patched value 1, source \<open>new.py\<close>) and is
  then replaced inside \<open>lib.pyz\<close> as well (one update, the rebuilt PYZ holds the code
  compiled from \<open>new.py\<close>).
\<close>

theorem name_applied_twice_counterexample:
  "map_sum id (snd \<circ> snd)
      (repacker_loop demo_env demo_exe 2 ''app_extracted'' demo_toc demo_files [''mod'' \<mapsto> ''new.py''] [])
     = Inr [(1, 3, 3, 1, ''s'', ''mod'', ''new.py''),
            (1, 14, 14, 0, ''z'', ''lib.pyz'', ''app_extracted/lib.pyz'')]
   \<and> map_sum id (\<lambda>r. fst r ''app_extracted/lib.pyz'')
      (repacker_loop demo_env demo_exe 2 ''app_extracted'' demo_toc demo_files [''mod'' \<mapsto> ''new.py''] [])
     = Inr (Some [0x50, 0x59, 0x5A, 0, 1, 2, 3, 4, 0, 0, 0, 0, 7, 8])
   \<and> demo_files ''new.py'' = Some [7, 8]"
  by (simp add: demo_defs run_defs)

section \<open>Unmatched patch targets\<close>

text \<open>
  C7. A name of the patch set that is neither the name of an outer entry nor the name
  of an entry of a nested PYZ container has no effect: the run of \<open>repacker\<close> has
  exactly the outcome of the run without that name. When no name of the patch set
  matches, the outcome is that of the run with an empty patch set: the same output file
  system (so the same output executable) and the same spawned commands. No error is
  raised on account of an unmatched name, so the run completes whenever the run with the
  empty patch set does.
\<close>

theorem unmatched_patch_targets_ignored:
  "(\<forall>n. n \<notin> archive_names env fs executable
        \<longrightarrow> repacker env executable items fs = repacker env executable (items(n := None)) fs)
   \<and> (dom items \<inter> archive_names env fs executable = {}
        \<longrightarrow> repacker env executable items fs = repacker env executable Map.empty fs)"
proof (intro conjI allI impI)
  fix n assume "n \<notin> archive_names env fs executable"
  then have "\<forall>k \<in> archive_names env fs executable. items k = (items(n := None)) k"
    by auto
  then show "repacker env executable items fs = repacker env executable (items(n := None)) fs"
    by (rule repacker_agree)
next
  assume "dom items \<inter> archive_names env fs executable = {}"
  then have "\<forall>k \<in> archive_names env fs executable. items k = Map.empty k"
    by (auto simp: dom_def)
  then show "repacker env executable items fs = repacker env executable Map.empty fs"
    by (rule repacker_agree)
qed

theorem unmatched_patch_targets_ignored_witness:
  "dom [''absent'' \<mapsto> ''new.py''] \<inter> archive_names demo_env demo_files ''app.exe'' = {}
   \<and> repacker demo_env ''app.exe'' [''absent'' \<mapsto> ''new.py''] demo_files
     = repacker demo_env ''app.exe'' Map.empty demo_files
   \<and> map_sum id (\<lambda>r. fst r ''app-patched.exe'') (repacker demo_env ''app.exe'' Map.empty demo_files)
     = Inr (Some ([0xAA, 0xBB] @ demo_pkg))"
proof -
  have unmatched: "dom [''absent'' \<mapsto> ''new.py''] \<inter> archive_names demo_env demo_files ''app.exe'' = {}"
    by (simp add: archive_names_def inner_names_def demo_defs pyz_entry_def endswith_def)
  have "map_sum id (\<lambda>r. fst r ''app-patched.exe'') (repacker demo_env ''app.exe'' Map.empty demo_files)
     = Inr (Some ([0xAA, 0xBB] @ demo_pkg))"
    by (simp add: repacker_def repack_exe_def repack_exe_spliced_def get_carchive_info_def update_pkg_def
      CArchiveWriter2_def PYINST_COOKIE_SIZE_def unpack_i_def splitext_def basename_def
      demo_pkg_def demo_rewritten_def demo_defs run_defs)
  with unmatched_patch_targets_ignored [of demo_env demo_files "''app.exe''" "[''absent'' \<mapsto> ''new.py'']"]
    unmatched
  show ?thesis
    by blast
qed

section \<open>Splice correctness\<close>

text \<open>
  C4. After the splice of \<open>repack_exe\<close> (the branch taken when the platform is not
  Linux, with the package written to a file other than the output and no entry read from
  the output), the package-start offset is the file size minus the cookie's package
  length, every byte of the output below that offset equals the byte of the original at
  the same offset, and the length of the output is that offset (the bootloader length)
  plus the length of the new package. A negative offset makes the seek raise, so a
  completed splice has a non-negative one.
\<close>

theorem splice_keeps_bootloader:
  assumes "\<not> is_linux env"
    and "path_join path ''PKG-patched'' \<noteq> output"
    and "output \<notin> entry_source ` set logic_toc"
    and "fs output = Some original"
    and "repack_exe_spliced env path output logic_toc fs = Inr (fs', spawned)"
  shows "\<exists>offset pylib_name pkg spliced.
           get_carchive_info env fs output = Inr (offset, pylib_name) \<and>
           offset = int (length original)
                      - unpack_i (take 4 (drop 8 (drop (length original - PYINST_COOKIE_SIZE) original))) \<and>
           0 \<le> offset \<and>
           fs' (path_join path ''PKG-patched'') = Some pkg \<and>
           fs' output = Some spliced \<and>
           (\<forall>i. i < nat offset \<and> i < length original \<longrightarrow> spliced ! i = original ! i) \<and>
           length spliced = nat offset + length pkg"
proof -
  define pkgname where "pkgname = path_join path ''PKG-patched''"
  from assms(5) obtain offset pylib_name where
    info: "get_carchive_info env fs output = Inr (offset, pylib_name)"
    by (auto simp: repack_exe_spliced_def split: sum.splits)
  from info assms(4) have offset: "offset = int (length original)
      - unpack_i (take 4 (drop 8 (drop (length original - PYINST_COOKIE_SIZE) original)))"
    by (auto simp: get_carchive_info_def Let_def split: if_splits sum.splits)
  from assms(5) info obtain fs1 where
    writer: "CArchiveWriter2 env fs pkgname logic_toc pylib_name = Inr fs1"
    by (auto simp: repack_exe_spliced_def Let_def pkgname_def split: sum.splits)
  then obtain fsa w where
    entries: "add_entries env (fs(pkgname \<mapsto> [])) \<lparr>lib = [], toc = []\<rparr> logic_toc = Inr (fsa, w)"
    and fs1: "fs1 = fsa(pkgname \<mapsto> lib w @ save_trailer env (toc w) (length (lib w)) pylib_name)"
    by (auto simp: CArchiveWriter2_def split: sum.splits)
  define pkg where "pkg = lib w @ save_trailer env (toc w) (length (lib w)) pylib_name"
  have old: "fs1 output = Some original"
    using add_entries_fs_other [OF entries assms(3)] assms(2,4) by (simp add: fs1 pkgname_def)
  have new: "fs1 pkgname = Some pkg"
    by (simp add: fs1 pkg_def)
  from assms(1,5) info writer old new obtain spliced where
    upd: "update_pkg original offset pkg = Inr spliced"
    and fs': "fs' = fs1(output \<mapsto> spliced)"
    by (auto simp: repack_exe_spliced_def Let_def pkgname_def [symmetric] split: sum.splits)
  from upd have pos: "0 \<le> offset"
    and spliced: "spliced = take (nat offset) original @ replicate (nat offset - length original) 0 @ pkg"
    by (auto simp: update_pkg_def split: if_splits)
  have "spliced ! i = original ! i" if "i < nat offset" "i < length original" for i
    using that by (simp add: spliced nth_append)
  moreover have "length spliced = nat offset + length pkg"
    by (auto simp: spliced)
  moreover have "fs' pkgname = Some pkg" "fs' output = Some spliced"
    using assms(2) new by (simp_all add: fs' pkgname_def)
  ultimately show ?thesis
    using info offset pos unfolding pkgname_def by blast
qed

theorem splice_keeps_bootloader_witness:
  "\<not> is_linux demo_env
   \<and> path_join ''app_extracted'' ''PKG-patched'' \<noteq> ''app-patched.exe''
   \<and> ''app-patched.exe'' \<notin> entry_source ` set demo_logic_toc
   \<and> demo_copied ''app-patched.exe'' = Some demo_exe
   \<and> (\<exists>offset pylib_name pkg spliced.
           get_carchive_info demo_env demo_copied ''app-patched.exe'' = Inr (offset, pylib_name) \<and>
           offset = int (length demo_exe)
                      - unpack_i (take 4 (drop 8 (drop (length demo_exe - PYINST_COOKIE_SIZE) demo_exe))) \<and>
           0 \<le> offset \<and>
           (demo_copied(''app_extracted/PKG-patched'' \<mapsto> demo_pkg,
                         ''app-patched.exe'' \<mapsto> [0xAA, 0xBB] @ demo_pkg))
              (path_join ''app_extracted'' ''PKG-patched'') = Some pkg \<and>
           (demo_copied(''app_extracted/PKG-patched'' \<mapsto> demo_pkg,
                         ''app-patched.exe'' \<mapsto> [0xAA, 0xBB] @ demo_pkg)) ''app-patched.exe'' = Some spliced \<and>
           (\<forall>i. i < nat offset \<and> i < length demo_exe \<longrightarrow> spliced ! i = demo_exe ! i) \<and>
           length spliced = nat offset + length pkg)"
proof -
  have linux: "\<not> is_linux demo_env"
    by (simp add: demo_env_def)
  have name: "path_join ''app_extracted'' ''PKG-patched'' \<noteq> ''app-patched.exe''"
    by (simp add: path_join_def startswith_def endswith_def)
  have source: "''app-patched.exe'' \<notin> entry_source ` set demo_logic_toc"
    by (simp add: demo_logic_toc_def entry_source_def)
  have old: "demo_copied ''app-patched.exe'' = Some demo_exe"
    by (simp add: demo_copied_def)
  from splice_keeps_bootloader [OF linux name source old demo_spliced] linux name source old
  show ?thesis by blast
qed

section \<open>The resolver\<close>

text \<open>
  C2. The resolver is to return the patch set it built. On the input
  \<open>['foo.py']\<close> with strip 0 the loop builds the mapping from \<open>foo\<close> to
  \<open>foo.py\<close>, and the value of the call is \<open>None\<close>: the function has no
  \<open>return\<close> statement.
\<close>

theorem resolver_returns_none:
  "build_items [''foo.py''] (Some 0) Map.empty = Inr [''foo'' \<mapsto> ''foo.py'']
   \<and> build_updated_items [''foo.py''] (Some 0) = Inr None"
  by (simp add: build_updated_items_def resolver_defs)

text \<open>
  C3 (as amended). \<open>src/foo.py\<close> resolves to \<open>foo\<close> with strip 1; with strip 0 every
  component is kept and the name is \<open>src.foo\<close>. When no strip value is given to the
  resolver (\<open>None\<close>), \<open>src/foo.py\<close> resolves to \<open>foo\<close>, and
  \<open>reader/__init__.py\<close> and \<open>../../reader/__init__.py\<close> resolve to \<open>reader\<close>.
\<close>

theorem name_derivation:
  "map_sum id fst (item_of ''src/foo.py'' (Some 1)) = Inr ''foo''
   \<and> map_sum id fst (item_of ''src/foo.py'' (Some 0)) = Inr ''src.foo''
   \<and> map_sum id fst (item_of ''src/foo.py'' None) = Inr ''foo''
   \<and> map_sum id fst (item_of ''reader/__init__.py'' None) = Inr ''reader''
   \<and> map_sum id fst (item_of ''../../reader/__init__.py'' None) = Inr ''reader''"
  by (simp add: resolver_defs)

text \<open>The first literal case of the claim as written fails: strip 0 keeps \<open>src\<close>.\<close>

theorem strip_zero_keeps_components_counterexample:
  "map_sum id fst (item_of ''src/foo.py'' (Some 0)) = Inr ''src.foo''
   \<and> ''src.foo'' \<noteq> ''foo''"
  by (simp add: resolver_defs)

section \<open>The command line and the error boundary\<close>

text \<open>
  C9. The command line is to accept a list of replacement files. Two files after the
  executable are rejected by the parser (exit status 2), and the one file that is
  accepted arrives as a string, over whose characters the resolver's loop runs.
\<close>

theorem files_argument_is_one_string:
  "parse_positionals [''dist/foo.exe'', ''a.py'', ''b.py''] = Inl (SystemExit 2)
   \<and> parse_positionals [''dist/foo.exe'', ''a.py''] = Inr (''dist/foo.exe'', Some ''a.py'')
   \<and> build_items (map (\<lambda>c. [c]) ''a.py'') (Some 0) Map.empty
       = Inr [''a'' \<mapsto> ''a'', ''.'' \<mapsto> ''.'', ''p'' \<mapsto> ''p'', ''y'' \<mapsto> ''y'']"
  by (simp add: resolver_defs)

text \<open>
  C8 (as amended). A run in which nothing is raised ends with status 0. An exception that
  escapes \<open>main\<close>, other than the argument parser's own exit, ends the process with
  status 1: without \<open>--debug\<close> it is handed to the installed hook \<open>excepthook\<close>, with
  \<open>--debug\<close> no hook is installed and the interpreter's default handler reports it.
  An exception raised by the lister is not caught on the way. A command line that the
  parser rejects ends with status 2, before any hook is installed.
\<close>

theorem errors_reach_the_top_level:
  "(\<forall>r. snd (main env debug strip positionals fs) = Inr r
        \<longrightarrow> process env debug strip positionals fs = (0, Returned, []))
   \<and> (\<forall>e. snd (main env debug strip positionals fs) = Inl e \<and> (\<forall>n. e \<noteq> SystemExit n)
        \<longrightarrow> fst (process env debug strip positionals fs) = 1
            \<and> (if debug
                then snd (process env debug strip positionals fs) = (DefaultTraceback, [])
                else snd (process env debug strip positionals fs)
                       = (case excepthook e (args_of e) of
                            (reports, SystemExit n) \<Rightarrow> (Hook, reports)
                          | (reports, e') \<Rightarrow> (HookFailed e', reports))))
   \<and> (\<forall>executable e. print_archive_items env executable fs = Inl e
        \<longrightarrow> snd (main env debug strip [executable] fs) = Inl e)
   \<and> (\<forall>e. parse_positionals positionals = Inl e
        \<longrightarrow> process env debug strip positionals fs = (2, Exited, []))"
proof -
  have returned: "\<forall>r. snd (main env debug strip positionals fs) = Inr r
        \<longrightarrow> process env debug strip positionals fs = (0, Returned, [])"
  proof (intro allI impI)
    fix r assume "snd (main env debug strip positionals fs) = Inr r"
    then show "process env debug strip positionals fs = (0, Returned, [])"
      by (cases "main env debug strip positionals fs") (simp add: process_def)
  qed
  have raised: "\<forall>e. snd (main env debug strip positionals fs) = Inl e \<and> (\<forall>n. e \<noteq> SystemExit n)
        \<longrightarrow> fst (process env debug strip positionals fs) = 1
            \<and> (if debug
                then snd (process env debug strip positionals fs) = (DefaultTraceback, [])
                else snd (process env debug strip positionals fs)
                       = (case excepthook e (args_of e) of
                            (reports, SystemExit n) \<Rightarrow> (Hook, reports)
                          | (reports, e') \<Rightarrow> (HookFailed e', reports)))"
  proof (intro allI impI)
    fix e assume err: "snd (main env debug strip positionals fs) = Inl e \<and> (\<forall>n. e \<noteq> SystemExit n)"
    then have escaped: "snd (main env debug strip positionals fs) = Inl e"
      and no_exit: "\<forall>n. e \<noteq> SystemExit n"
      by simp_all
    from main_hook [OF escaped no_exit] escaped
    have m: "main env debug strip positionals fs = (\<not> debug, Inl e)"
      by (cases "main env debug strip positionals fs") auto
    show "fst (process env debug strip positionals fs) = 1
            \<and> (if debug
                then snd (process env debug strip positionals fs) = (DefaultTraceback, [])
                else snd (process env debug strip positionals fs)
                       = (case excepthook e (args_of e) of
                            (reports, SystemExit n) \<Rightarrow> (Hook, reports)
                          | (reports, e') \<Rightarrow> (HookFailed e', reports)))"
    proof (cases debug)
      case True
      then show ?thesis
        unfolding process_def m by (simp add: finish_error [OF no_exit])
    next
      case False
      obtain reports e' where h: "excepthook e (args_of e) = (reports, e')"
        by (cases "excepthook e (args_of e)")
      show ?thesis
      proof (cases "\<exists>n. e' = SystemExit n")
        case True
        then obtain n where n: "e' = SystemExit n" ..
        with excepthook_status [OF h [unfolded n]] False show ?thesis
          unfolding process_def m by (simp add: finish_error [OF no_exit] h)
      next
        case not_exit: False
        with False show ?thesis
          unfolding process_def m by (cases e') (simp_all add: finish_error [OF no_exit] h)
      qed
    qed
  qed
  have lister: "\<forall>executable e. print_archive_items env executable fs = Inl e
        \<longrightarrow> snd (main env debug strip [executable] fs) = Inl e"
    by (simp add: main_lists_without_files)
  have usage: "\<forall>e. parse_positionals positionals = Inl e
        \<longrightarrow> process env debug strip positionals fs = (2, Exited, [])"
  proof (intro allI impI)
    fix e assume rejected: "parse_positionals positionals = Inl e"
    from parse_positionals_error [OF rejected] rejected
    show "process env debug strip positionals fs = (2, Exited, [])"
      by (simp add: process_def main_def)
  qed
  from returned raised lister usage show ?thesis
    by (intro conjI)
qed

theorem errors_reach_the_top_level_witness:
  "snd (main demo_env False 0 [''missing.exe''] demo_files) = Inl (IOError ''missing.exe'')
   \<and> fst (process demo_env False 0 [''missing.exe''] demo_files) = 1
   \<and> snd (process demo_env False 0 [''missing.exe''] demo_files) = (HookFailed TypeError, [])"
proof -
  have raised: "snd (main demo_env False 0 [''missing.exe''] demo_files) = Inl (IOError ''missing.exe'')"
    by (simp add: main_def print_archive_items_def demo_files_def)
  have "\<forall>n. IOError ''missing.exe'' \<noteq> SystemExit n"
    by simp
  with errors_reach_the_top_level [of demo_env False 0 "[''missing.exe'']" demo_files] raised
  show ?thesis
    by (simp add: excepthook_raises_on_model_errors)
qed

text \<open>
  The claim as written fails in a run with \<open>--debug\<close>: listing a missing executable
  raises, no hook is installed, no \<open>logger.error\<close> call is made and the interpreter's
  traceback handler ends the process. A rejected command line ends with status 2.
\<close>

theorem debug_run_bypasses_hook_counterexample:
  "process demo_env True 0 [''missing.exe''] demo_files = (1, DefaultTraceback, [])
   \<and> process demo_env False 0 [] demo_files = (2, Exited, [])"
  by (simp add: process_def main_def print_archive_items_def demo_files_def)

end
